theory Spec2Isabelle
  imports Complex_Main "HOL-Library.Word"
begin

unbundle bit_operations_syntax

section \<open>JavaScript values handled by the secrets module\<close>

text \<open>
  A JavaScript string is a sequence of UTF-16 code units and a \<open>Uint8Array\<close> a sequence
  of octets. String literals of the source are written with \<open>lit\<close>.
\<close>

type_synonym jsstring = "16 word list"

type_synonym Uint8Array = "8 word list"

definition lit :: "string \<Rightarrow> jsstring" where
  "lit s = map (\<lambda>c. of_nat (of_char c)) s"

definition colon :: "16 word" where
  "colon = 58"

text \<open>
  A number is a double: not-a-number, an infinity (\<open>True\<close> for the positive one) or a
  finite value. The module only produces integers itself; other values can come out of
  \<open>Number(...)\<close> applied to a configuration string.
\<close>

datatype js_number = NaN | Infinity bool | Finite rat

text \<open>
  What a \<open>throw\<close> (or a rejected promise) carries: an \<open>Error\<close> instance with its
  \<open>name\<close> and \<open>message\<close>, or some other value, kept as its \<open>String(...)\<close> rendering.
\<close>

datatype thrown = ErrorObject jsstring jsstring | NonError jsstring

definition Error :: "jsstring \<Rightarrow> thrown" where
  "Error msg = ErrorObject (lit ''Error'') msg"

text \<open>The expression \<open>error instanceof Error ? error.message : String(error)\<close>.\<close>

fun message_of :: "thrown \<Rightarrow> jsstring" where
  "message_of (ErrorObject name msg) = msg"
| "message_of (NonError rendering) = rendering"

section \<open>Built-ins of the language and the host\<close>

subsection \<open>String operations\<close>

definition startsWith :: "jsstring \<Rightarrow> jsstring \<Rightarrow> bool" where
  "startsWith s p = (take (length p) s = p)"

definition substring :: "jsstring \<Rightarrow> nat \<Rightarrow> jsstring" where
  "substring s n = drop n s"

text \<open>
  \<open>s.split(sep)\<close> for a one-unit separator: the result is never empty, the empty string
  splits into one empty part.
\<close>

fun split_on :: "16 word \<Rightarrow> jsstring \<Rightarrow> jsstring list" where
  "split_on sep [] = [[]]"
| "split_on sep (c # cs) =
     (if c = sep then [] # split_on sep cs
      else (case split_on sep cs of
              [] \<Rightarrow> [[c]]
            | p # ps \<Rightarrow> (c # p) # ps))"

text \<open>A non-negative integer inside a template literal: its decimal digits.\<close>

fun decimal :: "nat \<Rightarrow> jsstring" where
  "decimal n =
     (if n < 10 then [of_nat (48 + n)]
      else decimal (n div 10) @ [of_nat (48 + n mod 10)])"

declare decimal.simps [simp del]

subsection \<open>\<open>Number.parseInt(string, 10)\<close>\<close>

text \<open>
  ECMAScript's \<open>parseInt\<close> with radix 10: leading white space and line terminators are
  skipped, one sign is read, then the longest run of decimal digits; no digit gives
  \<open>NaN\<close>, and whatever follows the digits is ignored. The exact integer is kept where
  a double would round (beyond 2^53).
\<close>

definition StrWhiteSpaceChar :: "16 word \<Rightarrow> bool" where
  "StrWhiteSpaceChar c =
     (c \<in> {0x9, 0xA, 0xB, 0xC, 0xD, 0x20, 0xA0, 0x1680, 0x2028, 0x2029, 0x202F, 0x205F,
           0x3000, 0xFEFF}
      \<or> (0x2000 \<le> c \<and> c \<le> 0x200A))"

definition is_digit :: "16 word \<Rightarrow> bool" where
  "is_digit c = (48 \<le> c \<and> c \<le> 57)"

definition digits_value :: "jsstring \<Rightarrow> nat" where
  "digits_value z = foldl (\<lambda>acc c. 10 * acc + (unat c - 48)) 0 z"

definition parseInt10 :: "jsstring \<Rightarrow> js_number" where
  "parseInt10 input =
     (let s = dropWhile StrWhiteSpaceChar input;
          negative = (s \<noteq> [] \<and> hd s = 45);
          s' = (if s \<noteq> [] \<and> (hd s = 43 \<or> hd s = 45) then tl s else s);
          z = takeWhile is_digit s'
      in if z = [] then NaN
         else Finite (of_int (if negative then - int (digits_value z) else int (digits_value z))))"

subsection \<open>\<open>btoa\<close> and \<open>atob\<close>\<close>

text \<open>
  The base64 alphabet of RFC 4648, by position, and its inverse.
\<close>

definition b64_char :: "nat \<Rightarrow> 16 word" where
  "b64_char n =
     of_nat (if n < 26 then 65 + n
             else if n < 52 then 71 + n
             else if n < 62 then n - 4
             else if n = 62 then 43
             else 47)"

definition b64_value :: "16 word \<Rightarrow> nat option" where
  "b64_value c =
     (let u = unat c in
      if 65 \<le> u \<and> u \<le> 90 then Some (u - 65)
      else if 97 \<le> u \<and> u \<le> 122 then Some (u - 71)
      else if 48 \<le> u \<and> u \<le> 57 then Some (u + 4)
      else if u = 43 then Some 62
      else if u = 47 then Some 63
      else None)"

definition pad :: "16 word" where
  "pad = 61"

fun base64_encode :: "Uint8Array \<Rightarrow> jsstring" where
  "base64_encode [] = []"
| "base64_encode [a] =
     [b64_char (unat a div 4), b64_char (unat a mod 4 * 16), pad, pad]"
| "base64_encode [a, b] =
     [b64_char (unat a div 4), b64_char (unat a mod 4 * 16 + unat b div 16),
      b64_char (unat b mod 16 * 4), pad]"
| "base64_encode (a # b # c # rest) =
     [b64_char (unat a div 4), b64_char (unat a mod 4 * 16 + unat b div 16),
      b64_char (unat b mod 16 * 4 + unat c div 64), b64_char (unat c mod 64)]
     @ base64_encode rest"

definition InvalidCharacterError :: thrown where
  "InvalidCharacterError =
     ErrorObject (lit ''InvalidCharacterError'')
       (lit ''The string to be decoded is not correctly encoded.'')"

text \<open>
  \<open>btoa\<close> takes a binary string (every unit at most \<open>0xFF\<close>), and throws on any other.
\<close>

definition btoa :: "jsstring \<Rightarrow> thrown + jsstring" where
  "btoa s =
     (if \<exists>c \<in> set s. 0xFF < c
      then Inl (ErrorObject (lit ''InvalidCharacterError'') (lit ''Invalid character''))
      else Inr (base64_encode (map ucast s)))"

text \<open>
  \<open>atob\<close> is the forgiving base64 decoder of the HTML standard: ASCII white space is
  removed, one or two trailing \<open>=\<close> are removed from an input whose length is a multiple
  of four, a remaining length of 1 modulo 4 or a unit outside the alphabet is a failure,
  and the bits left over at the end (4 after two units, 2 after three) are discarded
  without being looked at.
\<close>

definition ascii_whitespace :: "16 word \<Rightarrow> bool" where
  "ascii_whitespace c = (c \<in> {0x9, 0xA, 0xC, 0xD, 0x20})"

definition strip_padding :: "jsstring \<Rightarrow> jsstring" where
  "strip_padding d =
     (if length d mod 4 = 0 \<and> d \<noteq> [] \<and> last d = pad
      then (if butlast d \<noteq> [] \<and> last (butlast d) = pad then butlast (butlast d)
            else butlast d)
      else d)"

fun base64_decode :: "nat list \<Rightarrow> jsstring" where
  "base64_decode (p # q # r # s # rest) =
     [of_nat (p * 4 + q div 16), of_nat (q mod 16 * 16 + r div 4), of_nat (r mod 4 * 64 + s)]
     @ base64_decode rest"
| "base64_decode [p, q, r] = [of_nat (p * 4 + q div 16), of_nat (q mod 16 * 16 + r div 4)]"
| "base64_decode [p, q] = [of_nat (p * 4 + q div 16)]"
| "base64_decode _ = []"

definition atob :: "jsstring \<Rightarrow> thrown + jsstring" where
  "atob data =
     (let d = strip_padding (filter (\<lambda>c. \<not> ascii_whitespace c) data) in
      if length d mod 4 = 1 then Inl InvalidCharacterError
      else if \<exists>c \<in> set d. b64_value c = None then Inl InvalidCharacterError
      else Inr (base64_decode (map (\<lambda>c. the (b64_value c)) d)))"

subsection \<open>\<open>TextEncoder\<close> and \<open>TextDecoder\<close>\<close>

text \<open>
  \<open>new TextEncoder().encode(s)\<close>: the code units are read as UTF-16 (a surrogate
  without its partner becomes U+FFFD) and each scalar value is written in UTF-8.
\<close>

fun utf16_decode :: "jsstring \<Rightarrow> nat list" where
  "utf16_decode [] = []"
| "utf16_decode [c] = [if 0xD800 \<le> unat c \<and> unat c \<le> 0xDFFF then 0xFFFD else unat c]"
| "utf16_decode (c # d # rest) =
     (if 0xD800 \<le> unat c \<and> unat c \<le> 0xDBFF \<and> 0xDC00 \<le> unat d \<and> unat d \<le> 0xDFFF
      then (0x10000 + (unat c - 0xD800) * 0x400 + (unat d - 0xDC00)) # utf16_decode rest
      else (if 0xD800 \<le> unat c \<and> unat c \<le> 0xDFFF then 0xFFFD else unat c)
           # utf16_decode (d # rest))"

definition utf8_encode_scalar :: "nat \<Rightarrow> Uint8Array" where
  "utf8_encode_scalar cp =
     (if cp < 0x80 then [of_nat cp]
      else if cp < 0x800 then [of_nat (0xC0 + cp div 64), of_nat (0x80 + cp mod 64)]
      else if cp < 0x10000 then
        [of_nat (0xE0 + cp div 4096), of_nat (0x80 + cp div 64 mod 64), of_nat (0x80 + cp mod 64)]
      else
        [of_nat (0xF0 + cp div 262144), of_nat (0x80 + cp div 4096 mod 64),
         of_nat (0x80 + cp div 64 mod 64), of_nat (0x80 + cp mod 64)])"

definition TextEncoder_encode :: "jsstring \<Rightarrow> Uint8Array" where
  "TextEncoder_encode s = concat (map utf8_encode_scalar (utf16_decode s))"

text \<open>
  The UTF-8 decoder of the Encoding standard, in replacement mode (\<open>fatal\<close> is not set):
  the state is the code point collected so far, the number of continuation bytes still
  expected and the range allowed for the next byte. A byte that cannot continue a
  sequence ends it with U+FFFD and is then read again as the start of the next one.
\<close>

definition utf8_lead :: "8 word \<Rightarrow> nat list \<times> (nat \<times> nat \<times> nat \<times> nat)" where
  "utf8_lead b =
     (let u = unat b in
      if u \<le> 0x7F then ([u], (0, 0, 0x80, 0xBF))
      else if 0xC2 \<le> u \<and> u \<le> 0xDF then ([], (u mod 32, 1, 0x80, 0xBF))
      else if 0xE0 \<le> u \<and> u \<le> 0xEF then
        ([], (u mod 16, 2, if u = 0xE0 then 0xA0 else 0x80, if u = 0xED then 0x9F else 0xBF))
      else if 0xF0 \<le> u \<and> u \<le> 0xF4 then
        ([], (u mod 8, 3, if u = 0xF0 then 0x90 else 0x80, if u = 0xF4 then 0x8F else 0xBF))
      else ([0xFFFD], (0, 0, 0x80, 0xBF)))"

fun utf8_decode :: "nat \<times> nat \<times> nat \<times> nat \<Rightarrow> Uint8Array \<Rightarrow> nat list" where
  "utf8_decode (cp, needed, lower, upper) [] = (if needed \<noteq> 0 then [0xFFFD] else [])"
| "utf8_decode (cp, needed, lower, upper) (b # bs) =
     (if needed = 0 then
        (case utf8_lead b of (out, st) \<Rightarrow> out @ utf8_decode st bs)
      else if unat b < lower \<or> upper < unat b then
        (case utf8_lead b of (out, st) \<Rightarrow> 0xFFFD # out @ utf8_decode st bs)
      else if needed = 1 then
        (cp * 64 + unat b mod 64) # utf8_decode (0, 0, 0x80, 0xBF) bs
      else utf8_decode (cp * 64 + unat b mod 64, needed - 1, 0x80, 0xBF) bs)"

definition utf16_encode_scalar :: "nat \<Rightarrow> jsstring" where
  "utf16_encode_scalar cp =
     (if cp < 0x10000 then [of_nat cp]
      else [of_nat (0xD800 + (cp - 0x10000) div 0x400), of_nat (0xDC00 + (cp - 0x10000) mod 0x400)])"

text \<open>
  \<open>new TextDecoder('utf8').decode(buffer)\<close>. The decoder is built with the default
  options, so \<open>ignoreBOM\<close> is false: a leading byte order mark \<open>EF BB BF\<close> is removed
  from the input before it is decoded.
\<close>

definition TextDecoder_decode :: "Uint8Array \<Rightarrow> jsstring" where
  "TextDecoder_decode buffer =
     concat (map utf16_encode_scalar
       (utf8_decode (0, 0, 0x80, 0xBF)
          (if take 3 buffer = [0xEF, 0xBB, 0xBF] then drop 3 buffer else buffer)))"

subsection \<open>The Web Crypto API, \<open>Number\<close> and \<open>JSON.parse\<close>\<close>

text \<open>
  What the module calls and this development does not fix: the secure random source
  (\<open>getRandomValues P k i\<close> is octet \<open>i\<close> of the array filled by the \<open>k\<close>-th call), the
  four operations of \<open>crypto.subtle\<close> as the module parameterises them (\<open>importKey\<close> of
  raw key material for PBKDF2; \<open>deriveKey\<close> of an AES-GCM key of 256 bits with SHA-256
  from a salt, an iteration count and an imported key; \<open>encrypt\<close> and \<open>decrypt\<close> with
  AES-GCM under an IV and a key), \<open>Number\<close> applied to a string, and \<open>JSON.parse\<close> of a
  text whose value the module takes for a record of strings (its entries in the order
  \<open>Object.entries\<close> lists them). \<open>'k\<close> is the type of \<open>CryptoKey\<close> objects.
\<close>

record 'k platform =
  getRandomValues :: "nat \<Rightarrow> nat \<Rightarrow> 8 word"
  subtle_importKey :: "Uint8Array \<Rightarrow> thrown + 'k"
  subtle_deriveKey :: "Uint8Array \<Rightarrow> js_number \<Rightarrow> 'k \<Rightarrow> thrown + 'k"
  subtle_encrypt :: "Uint8Array \<Rightarrow> 'k \<Rightarrow> Uint8Array \<Rightarrow> thrown + Uint8Array"
  subtle_decrypt :: "Uint8Array \<Rightarrow> 'k \<Rightarrow> Uint8Array \<Rightarrow> thrown + Uint8Array"
  Number_of_string :: "jsstring \<Rightarrow> js_number"
  JSON_parse :: "jsstring \<Rightarrow> thrown + (jsstring \<times> jsstring) list"

text \<open>
  What a platform that works gives: every key material can be imported and a key derived
  from it under the given iteration count, and AES-GCM encrypts every input and decrypts
  what it encrypted, under the same key and IV, to the input.
\<close>

definition kdf_accepts :: "'k platform \<Rightarrow> js_number \<Rightarrow> bool" where
  "kdf_accepts P iterations =
     (\<forall>raw salt. \<exists>imported key.
        subtle_importKey P raw = Inr imported \<and> subtle_deriveKey P salt iterations imported = Inr key)"

definition aead_works :: "'k platform \<Rightarrow> bool" where
  "aead_works P =
     (\<forall>iv key data. \<exists>encrypted.
        subtle_encrypt P iv key data = Inr encrypted \<and> subtle_decrypt P iv key encrypted = Inr data)"


section \<open>The state the module runs in\<close>

text \<open>
  An environment object maps names to strings. Environment objects live in a store, so
  that \<open>process.env\<close> and \<open>import.meta.env\<close> are references (and may be the same
  object). \<open>process\<close> and \<open>import.meta\<close> are each undefined, defined without a usable
  \<open>env\<close>, or defined with one. The calls made to the random source, to \<open>crypto.subtle\<close>
  and to \<open>console.error\<close> are recorded in the order they happen.

  An object of the store is either the environment of the process, which Node.js keeps in
  the operating system and shows as \<open>process.env\<close>, or an ordinary object, which is what
  \<open>import.meta.env\<close> is under a bundler and what \<open>process.env\<close> is where a bundler or a
  browser shim provides it. The two take an assignment differently, see \<open>set_property\<close>.
\<close>

type_synonym EnvObject = "jsstring \<rightharpoonup> jsstring"

datatype host_object = Undefined | NoEnv | Env nat

datatype object_kind = ProcessEnvironment | OrdinaryObject

datatype event =
    RandomValues nat
  | ImportKey
  | DeriveKey js_number
  | Encrypt
  | Decrypt
  | ConsoleError jsstring thrown

record world =
  process :: host_object
  import_meta :: host_object
  kind :: "nat \<Rightarrow> object_kind"
  store :: "nat \<Rightarrow> EnvObject"
  events :: "event list"

definition record_event :: "event \<Rightarrow> world \<Rightarrow> world" where
  "record_event e w = w\<lparr>events := events w @ [e]\<rparr>"

definition random_calls :: "world \<Rightarrow> nat" where
  "random_calls w = length (filter (\<lambda>e. case e of RandomValues n \<Rightarrow> True | _ \<Rightarrow> False) (events w))"

text \<open>\<open>crypto.getRandomValues(new Uint8Array(n))\<close>.\<close>

definition crypto_getRandomValues :: "'k platform \<Rightarrow> nat \<Rightarrow> world \<Rightarrow> Uint8Array \<times> world" where
  "crypto_getRandomValues P n w =
     (map (getRandomValues P (random_calls w)) [0..<n], record_event (RandomValues n) w)"

text \<open>
  The assignment \<open>env[key] = value\<close> of a string to a string key.

  On the environment of the process Node.js (on a POSIX system) calls \<open>setenv\<close> with the
  name and the value as UTF-8 C strings: a lone surrogate has become U+FFFD, and the
  string ends before its first U+0000. \<open>setenv\<close> refuses an empty name and a name with
  \<open>=\<close> in it; Node.js ignores the refusal, so that such an assignment does nothing.

  On an ordinary object the assignment makes or changes the own property of that name,
  except for \<open>__proto__\<close>: that name is an accessor of \<open>Object.prototype\<close>, whose setter
  ignores a value that is neither an object nor \<open>null\<close>.
\<close>

definition c_string :: "jsstring \<Rightarrow> jsstring" where
  "c_string s = takeWhile (\<lambda>c. c \<noteq> 0) (concat (map utf16_encode_scalar (utf16_decode s)))"

definition set_property :: "object_kind \<Rightarrow> jsstring \<Rightarrow> jsstring \<Rightarrow> EnvObject \<Rightarrow> EnvObject" where
  "set_property k key val m =
     (case k of
        ProcessEnvironment \<Rightarrow>
          (let name = c_string key
           in if name = [] \<or> 0x3D \<in> set name then m else m(name \<mapsto> c_string val))
      | OrdinaryObject \<Rightarrow> (if key = lit ''__proto__'' then m else m(key \<mapsto> val)))"

definition assign :: "nat \<Rightarrow> jsstring \<Rightarrow> jsstring \<Rightarrow> world \<Rightarrow> world" where
  "assign a key val w =
     w\<lparr>store := (store w)(a := set_property (kind w a) key val (store w a))\<rparr>"

section \<open>src/types.ts (the end of src/unnamed/part_004)\<close>

text \<open>
  The enum \<open>EnvTarget\<close>; at run time any other value can be passed where one is
  expected, and is kept as its rendering in a template literal.
\<close>

datatype EnvTarget = PROCESS | IMPORT_META | OtherTarget jsstring

section \<open>src/src/utils.ts\<close>

definition base64ToUint8Array :: "jsstring \<Rightarrow> thrown + Uint8Array" where
  "base64ToUint8Array base64 =
     (case atob base64 of
        Inl e \<Rightarrow> Inl e
      | Inr binaryString \<Rightarrow> Inr (map ucast binaryString))"

definition uint8ArrayToBase64 :: "Uint8Array \<Rightarrow> thrown + jsstring" where
  "uint8ArrayToBase64 buffer = btoa (map ucast buffer)"

section \<open>src/secrets.ts (src/unnamed/part_004)\<close>

text \<open>
  \<open>PBKDF2_ROUNDS\<close> is a constant of the module: \<open>process.env.GITOPS_SECRETS_PBKDF2_ROUNDS
  || 1000000\<close> is evaluated once, when the module is loaded, on the environment of that
  moment. Its value is a non-empty string or the number.
\<close>

datatype js_value = StringValue jsstring | NumberValue nat

definition PBKDF2_ROUNDS :: "EnvObject \<Rightarrow> js_value" where
  "PBKDF2_ROUNDS env =
     (case env (lit ''GITOPS_SECRETS_PBKDF2_ROUNDS'') of
        Some v \<Rightarrow> if v \<noteq> [] then StringValue v else NumberValue 1000000
      | None \<Rightarrow> NumberValue 1000000)"

text \<open>\<open>Number(v)\<close> and \<open>v\<close> inside a template literal.\<close>

fun Number :: "'k platform \<Rightarrow> js_value \<Rightarrow> js_number" where
  "Number P (StringValue s) = Number_of_string P s"
| "Number P (NumberValue n) = Finite (of_nat n)"

fun template :: "js_value \<Rightarrow> jsstring" where
  "template (StringValue s) = s"
| "template (NumberValue n) = decimal n"

text \<open>
  \<open>masterKey\<close> reads \<open>process.env.GITOPS_SECRETS_MASTER_KEY\<close>: where \<open>process\<close> is
  undefined this is a \<open>ReferenceError\<close>, where \<open>process.env\<close> is, a \<open>TypeError\<close> (with
  the messages V8 gives them); an unset variable reads as \<open>undefined\<close>.
\<close>

definition masterKey_error :: thrown where
  "masterKey_error =
     Error (lit ''The 'GITOPS_SECRETS_MASTER_KEY' environment variable must be set to a string of 16 characters or more'')"

definition masterKey :: "world \<Rightarrow> thrown + jsstring" where
  "masterKey w =
     (case process w of
        Undefined \<Rightarrow> Inl (ErrorObject (lit ''ReferenceError'') (lit ''process is not defined''))
      | NoEnv \<Rightarrow>
          Inl (ErrorObject (lit ''TypeError'')
                 (lit ''Cannot read properties of undefined (reading 'GITOPS_SECRETS_MASTER_KEY')''))
      | Env a \<Rightarrow>
          (case store w a (lit ''GITOPS_SECRETS_MASTER_KEY'') of
             None \<Rightarrow> Inl masterKey_error
           | Some v \<Rightarrow> if v = [] \<or> length v < 16 then Inl masterKey_error else Inr v))"

text \<open>
  \<open>deriveKey(masterKeyString, salt, iterations = Number(PBKDF2_ROUNDS))\<close>: the default is
  evaluated only when the caller passes no third argument.
\<close>

definition deriveKey ::
  "'k platform \<Rightarrow> js_value \<Rightarrow> jsstring \<Rightarrow> Uint8Array \<Rightarrow> js_number option \<Rightarrow> world
     \<Rightarrow> (thrown + 'k) \<times> world" where
  "deriveKey P rounds_const masterKeyString salt iterations_arg w =
     (let iterations = (case iterations_arg of None \<Rightarrow> Number P rounds_const | Some n \<Rightarrow> n);
          masterKeyBuffer = TextEncoder_encode masterKeyString;
          w1 = record_event ImportKey w
      in case subtle_importKey P masterKeyBuffer of
           Inl e \<Rightarrow> (Inl e, w1)
         | Inr importedKey \<Rightarrow>
             (subtle_deriveKey P salt iterations importedKey,
              record_event (DeriveKey iterations) w1))"

text \<open>The template literal that \<open>encrypt\<close> returns.\<close>

definition envelope :: "jsstring \<Rightarrow> jsstring \<Rightarrow> jsstring \<Rightarrow> jsstring \<Rightarrow> jsstring" where
  "envelope rounds saltBase64 ivBase64 encryptedBase64 =
     lit ''base64'' @ [colon] @ rounds @ [colon] @ saltBase64 @ [colon] @ ivBase64 @ [colon]
       @ encryptedBase64"

definition encrypt :: "'k platform \<Rightarrow> js_value \<Rightarrow> jsstring \<Rightarrow> world \<Rightarrow> (thrown + jsstring) \<times> world" where
  "encrypt P rounds_const secrets w =
     (let (salt, w1) = crypto_getRandomValues P 8 w;
          (iv, w2) = crypto_getRandomValues P 12 w1
      in case masterKey w2 of
           Inl e \<Rightarrow> (Inl e, w2)
         | Inr passphrase \<Rightarrow>
             (case deriveKey P rounds_const passphrase salt None w2 of
                (Inl e, w3) \<Rightarrow> (Inl e, w3)
              | (Inr key, w3) \<Rightarrow>
                  (let dataBuffer = TextEncoder_encode secrets;
                       w4 = record_event Encrypt w3
                   in case subtle_encrypt P iv key dataBuffer of
                        Inl e \<Rightarrow> (Inl e, w4)
                      | Inr encryptedBuffer \<Rightarrow>
                          (case uint8ArrayToBase64 salt of
                             Inl e \<Rightarrow> (Inl e, w4)
                           | Inr saltBase64 \<Rightarrow>
                               (case uint8ArrayToBase64 iv of
                                  Inl e \<Rightarrow> (Inl e, w4)
                                | Inr ivBase64 \<Rightarrow>
                                    (case uint8ArrayToBase64 encryptedBuffer of
                                       Inl e \<Rightarrow> (Inl e, w4)
                                     | Inr encryptedBase64 \<Rightarrow>
                                         (Inr (envelope (template rounds_const) saltBase64
                                                 ivBase64 encryptedBase64), w4)))))))"

text \<open>The body of the \<open>try\<close> block of \<open>decrypt\<close>.\<close>

definition decrypt_try ::
  "'k platform \<Rightarrow> js_value \<Rightarrow> js_number \<Rightarrow> Uint8Array \<Rightarrow> Uint8Array \<Rightarrow> Uint8Array \<Rightarrow> world
     \<Rightarrow> (thrown + jsstring) \<times> world" where
  "decrypt_try P rounds_const rounds salt iv encryptedContent w =
     (case masterKey w of
        Inl e \<Rightarrow> (Inl e, w)
      | Inr passphrase \<Rightarrow>
          (case deriveKey P rounds_const passphrase salt (Some rounds) w of
             (Inl e, w1) \<Rightarrow> (Inl e, w1)
           | (Inr key, w1) \<Rightarrow>
               (let w2 = record_event Decrypt w1
                in case subtle_decrypt P iv key encryptedContent of
                     Inl e \<Rightarrow> (Inl e, w2)
                   | Inr decryptedBuffer \<Rightarrow> (Inr (TextDecoder_decode decryptedBuffer), w2))))"

text \<open>The parts \<open>decrypt\<close> splits its argument into (lines 88 to 90).\<close>

definition envelope_parts :: "jsstring \<Rightarrow> jsstring list" where
  "envelope_parts ciphertext =
     (let encodedData =
            (if startsWith ciphertext (lit ''base64:'')
             then substring ciphertext (length (lit ''base64:''))
             else ciphertext)
      in split_on colon encodedData)"

definition decrypt :: "'k platform \<Rightarrow> js_value \<Rightarrow> jsstring \<Rightarrow> world \<Rightarrow> (thrown + jsstring) \<times> world" where
  "decrypt P rounds_const ciphertext w =
     (let parts = envelope_parts ciphertext in
      if length parts \<noteq> 4 then
        (Inl (Error (lit ''Encrypted payload invalid. Expected 4 sections but got ''
                      @ decimal (length parts))), w)
      else
        (let rounds = parseInt10 (parts ! 0) in
         case base64ToUint8Array (parts ! 1) of
           Inl e \<Rightarrow> (Inl e, w)
         | Inr salt \<Rightarrow>
             (case base64ToUint8Array (parts ! 2) of
                Inl e \<Rightarrow> (Inl e, w)
              | Inr iv \<Rightarrow>
                  (case base64ToUint8Array (parts ! 3) of
                     Inl e \<Rightarrow> (Inl e, w)
                   | Inr encryptedContent \<Rightarrow>
                       (case decrypt_try P rounds_const rounds salt iv encryptedContent w of
                          (Inl error, w') \<Rightarrow>
                            (Inl (Error (lit ''Decryption failed: '' @ message_of error)), w')
                        | (Inr decrypted, w') \<Rightarrow> (Inr decrypted, w'))))))"

definition process_env_unavailable :: thrown where
  "process_env_unavailable = Error (lit ''process.env is not available in this environment'')"

definition getEnvObject :: "EnvTarget \<Rightarrow> world \<Rightarrow> thrown + nat" where
  "getEnvObject target w =
     (if import_meta w = Undefined then
        (case process w of
           Env a \<Rightarrow> Inr a
         | _ \<Rightarrow> Inl process_env_unavailable)
      else
        (case target of
           PROCESS \<Rightarrow>
             (case process w of
                Env a \<Rightarrow> Inr a
              | _ \<Rightarrow> Inl process_env_unavailable)
         | IMPORT_META \<Rightarrow>
             (case import_meta w of
                Env a \<Rightarrow> Inr a
              | _ \<Rightarrow> Inl (Error (lit ''import.meta.env is not available in this environment'')))
         | OtherTarget t \<Rightarrow> Inl (Error (lit ''Unsupported environment target: '' @ t))))"

text \<open>
  The two loops of \<open>mergeSecrets\<close> over \<open>Object.entries(payload)\<close>: the one that runs
  when \<open>import.meta\<close> is undefined, and the one that chooses the object by the target at
  every entry. An assignment to a property of an \<open>env\<close> that is not there throws.
\<close>

definition env_undefined :: thrown where
  "env_undefined =
     ErrorObject (lit ''TypeError'') (lit ''Cannot set properties of undefined'')"

fun assign_process :: "(jsstring \<times> jsstring) list \<Rightarrow> world \<Rightarrow> world" where
  "assign_process [] w = w"
| "assign_process ((key, val) # rest) w =
     (case process w of
        Env a \<Rightarrow> assign_process rest (assign a key val w)
      | _ \<Rightarrow> w)"

fun assign_target :: "EnvTarget \<Rightarrow> (jsstring \<times> jsstring) list \<Rightarrow> world \<Rightarrow> thrown option \<times> world" where
  "assign_target target [] w = (None, w)"
| "assign_target target ((key, val) # rest) w =
     (if target = PROCESS \<and> process w \<noteq> Undefined then
        (case process w of
           Env a \<Rightarrow> assign_target target rest (assign a key val w)
         | _ \<Rightarrow> (Some env_undefined, w))
      else if target = IMPORT_META \<and> import_meta w \<noteq> Undefined then
        (case import_meta w of
           Env a \<Rightarrow> assign_target target rest (assign a key val w)
         | _ \<Rightarrow> (Some env_undefined, w))
      else assign_target target rest w)"

definition mergeSecrets :: "(jsstring \<times> jsstring) list \<Rightarrow> EnvTarget \<Rightarrow> world \<Rightarrow> (thrown + nat) \<times> world" where
  "mergeSecrets payload target w =
     (case getEnvObject target w of
        Inl e \<Rightarrow> (Inl e, w)
      | Inr envObject \<Rightarrow>
          (if import_meta w = Undefined then
             (case process w of
                Env a \<Rightarrow> (Inr envObject, assign_process payload w)
              | _ \<Rightarrow> (Inr envObject, w))
           else
             (case assign_target target payload w of
                (Some e, w') \<Rightarrow> (Inl e, w')
              | (None, w') \<Rightarrow> (Inr envObject, w'))))"

definition loadSecrets_catch :: "EnvTarget \<Rightarrow> thrown \<Rightarrow> world \<Rightarrow> (thrown + nat) \<times> world" where
  "loadSecrets_catch target error w =
     (let w' = record_event (ConsoleError (lit ''Failed to load secrets:'') error) w
      in (getEnvObject target w', w'))"

definition loadSecrets ::
  "'k platform \<Rightarrow> js_value \<Rightarrow> jsstring \<Rightarrow> EnvTarget \<Rightarrow> world \<Rightarrow> (thrown + nat) \<times> world" where
  "loadSecrets P rounds_const encryptedSecrets target w =
     (case decrypt P rounds_const encryptedSecrets w of
        (Inl error, w1) \<Rightarrow> loadSecrets_catch target error w1
      | (Inr decryptedJson, w1) \<Rightarrow>
          (case JSON_parse P decryptedJson of
             Inl error \<Rightarrow> loadSecrets_catch target error w1
           | Inr secretsPayload \<Rightarrow>
               (case mergeSecrets secretsPayload target w1 of
                  (Inl error, w2) \<Rightarrow> loadSecrets_catch target error w2
                | (Inr envObject, w2) \<Rightarrow> (Inr envObject, w2))))"

section \<open>A small platform to run the module on\<close>

text \<open>
  Concrete runs need a platform. This one fills the \<open>k\<close>-th random array with
  \<open>1, 2, 3, ...\<close> (as the mock of tests/secrets.test.ts does), uses raw key material as
  the key object, and has stand-ins for PBKDF2 and AES-GCM that keep what the runs below
  rely on: the derived key depends on passphrase, salt and iteration count; an iteration
  count that is not a number, is out of the range of an unsigned long or is zero is
  rejected; decryption under the key and IV of the encryption gives the plain text back;
  and decryption checks a tag. \<open>Number\<close> is given for unsigned decimal literals with an
  optional exponent, \<open>JSON.parse\<close> for objects of plain strings.
\<close>

definition OperationError :: thrown where
  "OperationError =
     ErrorObject (lit ''OperationError'')
       (lit ''The operation failed for an operation-specific reason'')"

definition demo_deriveKey :: "Uint8Array \<Rightarrow> js_number \<Rightarrow> Uint8Array \<Rightarrow> thrown + Uint8Array" where
  "demo_deriveKey salt iterations key =
     (case iterations of
        Finite q \<Rightarrow>
          if q \<le> - 1 \<or> 4294967296 \<le> q
          then Inl (ErrorObject (lit ''TypeError'') (lit ''Value is outside the range''))
          else if nat \<lfloor>q\<rfloor> = 0 then Inl OperationError
          else Inr (key @ salt @ map ucast (decimal (nat \<lfloor>q\<rfloor>)))
      | _ \<Rightarrow> Inl (ErrorObject (lit ''TypeError'') (lit ''Value is not a finite number'')))"

definition demo_tag :: "Uint8Array \<Rightarrow> Uint8Array \<Rightarrow> Uint8Array \<Rightarrow> 8 word" where
  "demo_tag iv key data = sum_list key + sum_list iv + sum_list data + 1"

definition demo_encrypt :: "Uint8Array \<Rightarrow> Uint8Array \<Rightarrow> Uint8Array \<Rightarrow> thrown + Uint8Array" where
  "demo_encrypt iv key data =
     Inr (map (\<lambda>b. b + sum_list key + sum_list iv) data @ [demo_tag iv key data])"

definition demo_decrypt :: "Uint8Array \<Rightarrow> Uint8Array \<Rightarrow> Uint8Array \<Rightarrow> thrown + Uint8Array" where
  "demo_decrypt iv key encrypted =
     (if encrypted = [] then Inl OperationError
      else (let data = map (\<lambda>b. b - sum_list key - sum_list iv) (butlast encrypted)
            in if last encrypted = demo_tag iv key data then Inr data else Inl OperationError))"

definition demo_Number :: "jsstring \<Rightarrow> js_number" where
  "demo_Number s =
     (let mantissa = takeWhile is_digit s; rest = dropWhile is_digit s in
      if s = [] then Finite 0
      else if mantissa = [] then NaN
      else if rest = [] then Finite (of_nat (digits_value mantissa))
      else if hd rest = 101 \<and> tl rest \<noteq> [] \<and> list_all is_digit (tl rest)
      then Finite (of_nat (digits_value mantissa * 10 ^ digits_value (tl rest)))
      else NaN)"

definition quote :: "16 word" where
  "quote = 34"

definition demo_member :: "jsstring \<Rightarrow> (jsstring \<times> jsstring) option" where
  "demo_member m =
     (case split_on quote m of
        [a, key, b, val, c] \<Rightarrow> if a = [] \<and> b = [colon] \<and> c = [] then Some (key, val) else None
      | _ \<Rightarrow> None)"

definition demo_JSON_parse :: "jsstring \<Rightarrow> thrown + (jsstring \<times> jsstring) list" where
  "demo_JSON_parse s =
     (let members = map demo_member (split_on 44 (butlast (tl s))) in
      if s = lit ''{}'' then Inr []
      else if 2 \<le> length s \<and> hd s = 123 \<and> last s = 125 \<and> list_all (\<lambda>m. m \<noteq> None) members
      then Inr (map the members)
      else Inl (ErrorObject (lit ''SyntaxError'') (lit ''Unexpected token'')))"

definition demo :: "Uint8Array platform" where
  "demo =
     \<lparr> getRandomValues = (\<lambda>k i. of_nat (i + 1)),
       subtle_importKey = (\<lambda>raw. Inr raw),
       subtle_deriveKey = demo_deriveKey,
       subtle_encrypt = demo_encrypt,
       subtle_decrypt = demo_decrypt,
       Number_of_string = demo_Number,
       JSON_parse = demo_JSON_parse \<rparr>"

text \<open>
  A Node.js process running the module as an ES module: \<open>process.env\<close> is the environment
  of the process, at address 0, and \<open>import.meta\<close> is defined and has no \<open>env\<close>. The
  second world is a bundler's run time, where \<open>import.meta.env\<close> is an ordinary object
  at address 1. The third is a build in which the bundler was told to replace
  \<open>import.meta\<close> by \<open>undefined\<close>, run by Node.js.
\<close>

definition node_kind :: "nat \<Rightarrow> object_kind" where
  "node_kind a = (if a = 0 then ProcessEnvironment else OrdinaryObject)"

definition node_world :: "(jsstring \<times> jsstring) list \<Rightarrow> world" where
  "node_world vars =
     \<lparr> process = Env 0, import_meta = NoEnv, kind = node_kind,
       store = (\<lambda>a. if a = 0 then map_of vars else Map.empty), events = [] \<rparr>"

definition bundler_world :: "(jsstring \<times> jsstring) list \<Rightarrow> (jsstring \<times> jsstring) list \<Rightarrow> world" where
  "bundler_world vars meta_vars =
     \<lparr> process = Env 0, import_meta = Env 1, kind = node_kind,
       store = (\<lambda>a. if a = 0 then map_of vars else if a = 1 then map_of meta_vars else Map.empty),
       events = [] \<rparr>"

definition no_meta_world :: "(jsstring \<times> jsstring) list \<Rightarrow> world" where
  "no_meta_world vars =
     \<lparr> process = Env 0, import_meta = Undefined, kind = node_kind,
       store = (\<lambda>a. if a = 0 then map_of vars else Map.empty), events = [] \<rparr>"

text \<open>
  The key the stand-in derives from the passphrase of the tests, the salt \<open>1, ..., 8\<close>
  and 1000000 rounds.
\<close>

definition demo_key :: Uint8Array where
  "demo_key =
     [116, 101, 115, 116, 45, 109, 97, 115, 116, 101, 114, 45, 107, 101, 121, 45, 49, 54, 99, 104,
      97, 114, 115, 43, 1, 2, 3, 4, 5, 6, 7, 8, 49, 48, 48, 48, 48, 48, 48]"

definition test_key :: "(jsstring \<times> jsstring) list" where
  "test_key = [(lit ''GITOPS_SECRETS_MASTER_KEY'', lit ''test-master-key-16chars+'')]"

section \<open>Auxiliary notions for the proofs\<close>

text \<open>
  The 6-bit values and the padding that \<open>base64_encode\<close> writes for a byte sequence,
  separately.
\<close>

fun sextets :: "Uint8Array \<Rightarrow> nat list" where
  "sextets [] = []"
| "sextets [a] = [unat a div 4, unat a mod 4 * 16]"
| "sextets [a, b] = [unat a div 4, unat a mod 4 * 16 + unat b div 16, unat b mod 16 * 4]"
| "sextets (a # b # c # rest) =
     [unat a div 4, unat a mod 4 * 16 + unat b div 16, unat b mod 16 * 4 + unat c div 64,
      unat c mod 64] @ sextets rest"

fun padding :: "Uint8Array \<Rightarrow> jsstring" where
  "padding [] = []"
| "padding [a] = [pad, pad]"
| "padding [a, b] = [pad]"
| "padding (a # b # c # rest) = padding rest"

text \<open>
  Strings that are well-formed UTF-16 (every surrogate is half of a pair), and the code
  points that are Unicode scalar values. These are the strings \<open>TextEncoder\<close> encodes
  without replacing anything.
\<close>

fun well_formed :: "jsstring \<Rightarrow> bool" where
  "well_formed [] = True"
| "well_formed [c] = (\<not> (0xD800 \<le> unat c \<and> unat c \<le> 0xDFFF))"
| "well_formed (c # d # rest) =
     (if 0xD800 \<le> unat c \<and> unat c \<le> 0xDBFF
      then 0xDC00 \<le> unat d \<and> unat d \<le> 0xDFFF \<and> well_formed rest
      else \<not> (0xDC00 \<le> unat c \<and> unat c \<le> 0xDFFF) \<and> well_formed (d # rest))"

definition scalar_value :: "nat \<Rightarrow> bool" where
  "scalar_value cp = (cp < 0x110000 \<and> \<not> (0xD800 \<le> cp \<and> cp \<le> 0xDFFF))"

text \<open>An environment object after the entries of a payload were assigned to it in order.\<close>

fun write_all :: "object_kind \<Rightarrow> EnvObject \<Rightarrow> (jsstring \<times> jsstring) list \<Rightarrow> EnvObject" where
  "write_all k m [] = m"
| "write_all k m ((key, val) # rest) = write_all k (set_property k key val m) rest"

text \<open>
  The entries that an object of a kind keeps as they are written: for the environment
  of the process, a name that is not empty, has no \<open>=\<close> and no U+0000 in it and is
  well-formed, with a value that has no U+0000 in it and is well-formed; for an ordinary
  object, every name but \<open>__proto__\<close>.
\<close>

definition kept_as_written :: "object_kind \<Rightarrow> jsstring \<Rightarrow> jsstring \<Rightarrow> bool" where
  "kept_as_written k key val =
     (case k of
        ProcessEnvironment \<Rightarrow>
          key \<noteq> [] \<and> 0x3D \<notin> set key \<and> 0 \<notin> set key \<and> well_formed key
          \<and> 0 \<notin> set val \<and> well_formed val
      | OrdinaryObject \<Rightarrow> key \<noteq> lit ''__proto__'')"

text \<open>The state after \<open>encrypt\<close> has drawn the salt and the IV and made further calls.\<close>

definition after_random :: "world \<Rightarrow> event list \<Rightarrow> world" where
  "after_random w evs = w\<lparr>events := events w @ RandomValues 8 # RandomValues 12 # evs\<rparr>"

section \<open>Properties of the built-ins\<close>

subsection \<open>Splitting and decimal digits\<close>

lemma split_on_not_Nil: "split_on sep s \<noteq> []"
  by (induction s) (auto split: list.splits)

lemma length_split_on: "length (split_on sep s) = Suc (count_list s sep)"
  by (induction s) (auto split: list.splits simp: split_on_not_Nil)

lemma decimal_digit: "n < 10 \<Longrightarrow> decimal n = [of_nat (48 + n)]"
  by (simp add: decimal.simps)

lemma decimal_more: "\<not> n < 10 \<Longrightarrow> decimal n = decimal (n div 10) @ [of_nat (48 + n mod 10)]"
  by (subst decimal.simps) simp

subsection \<open>Base64: decoding what was encoded\<close>

lemma base64_encode_sextets: "base64_encode bs = map b64_char (sextets bs) @ padding bs"
  by (induction bs rule: base64_encode.induct) simp_all

lemma unat_byte_lt: "unat (a :: 8 word) < 256"
  using unsigned_less [of a] by simp

lemma sextets_lt: "n \<in> set (sextets bs) \<Longrightarrow> n < 64"
proof (induction bs arbitrary: n rule: sextets.induct)
  case 1 then show ?case by simp
next
  case (2 a) then show ?case using unat_byte_lt [of a] by auto
next
  case (3 a b) then show ?case using unat_byte_lt [of a] unat_byte_lt [of b] by auto
next
  case (4 a b c rest)
  then show ?case using unat_byte_lt [of a] unat_byte_lt [of b] unat_byte_lt [of c] by auto
qed

lemma b64_value_char: "n < 64 \<Longrightarrow> b64_value (b64_char n) = Some n"
  by (auto simp: b64_value_def b64_char_def unat_of_nat Let_def)

lemma b64_value_pad: "b64_value pad = None"
  by (simp add: b64_value_def pad_def)

lemma b64_value_colon: "b64_value colon = None"
  by (simp add: b64_value_def colon_def)

lemma b64_value_whitespace: "ascii_whitespace c \<Longrightarrow> b64_value c = None"
  by (auto simp: b64_value_def ascii_whitespace_def)

lemma b64_value_binary: "b64_value c = Some n \<Longrightarrow> c \<le> 0xFF"
  by (auto simp: b64_value_def Let_def word_le_nat_alt split: if_splits)


lemma b64_char_props:
  assumes "n < 64"
  shows "b64_char n \<noteq> pad" "b64_char n \<noteq> colon" "\<not> ascii_whitespace (b64_char n)"
  using b64_value_char [OF assms] b64_value_pad b64_value_colon b64_value_whitespace [of "b64_char n"]
  by auto

lemma padding_cases: "padding bs = [] \<or> (padding bs = [pad] \<and> sextets bs \<noteq> []) \<or> (padding bs = [pad, pad] \<and> sextets bs \<noteq> [])"
  by (induction bs rule: padding.induct) auto

lemma length_encoded: "(length (sextets bs) + length (padding bs)) mod 4 = 0"
  by (induction bs rule: sextets.induct) auto

lemma length_sextets: "length (sextets bs) mod 4 \<noteq> 1"
  by (induction bs rule: sextets.induct) auto

lemma last_sextet_char: "sextets bs \<noteq> [] \<Longrightarrow> last (map b64_char (sextets bs)) \<noteq> pad"
  using sextets_lt [of "last (sextets bs)" bs] b64_char_props(1)
  by (simp add: last_map)

lemma strip_padding_encode: "strip_padding (base64_encode bs) = map b64_char (sextets bs)"
proof -
  let ?d = "map b64_char (sextets bs)"
  consider "padding bs = []" | "padding bs = [pad]" "sextets bs \<noteq> []"
    | "padding bs = [pad, pad]" "sextets bs \<noteq> []"
    using padding_cases by blast
  then show ?thesis
  proof cases
    case 1
    then show ?thesis
      using last_sextet_char [of bs]
      by (cases "sextets bs = []") (auto simp: base64_encode_sextets strip_padding_def)
  next
    case 2
    then show ?thesis
      using last_sextet_char [of bs] length_encoded [of bs]
      by (simp add: base64_encode_sextets strip_padding_def butlast_append)
  next
    case 3
    then show ?thesis
      using last_sextet_char [of bs] length_encoded [of bs]
      by (simp add: base64_encode_sextets strip_padding_def butlast_append)
  qed
qed

lemma no_whitespace_encode: "filter (\<lambda>c. \<not> ascii_whitespace c) (base64_encode bs) = base64_encode bs"
proof -
  have "\<not> ascii_whitespace pad" by (simp add: ascii_whitespace_def pad_def)
  then have "\<forall>c \<in> set (padding bs). \<not> ascii_whitespace c"
    by (induction bs rule: padding.induct) auto
  moreover have "\<forall>c \<in> set (map b64_char (sextets bs)). \<not> ascii_whitespace c"
    using sextets_lt b64_char_props(3) by auto
  ultimately show ?thesis
    by (simp add: base64_encode_sextets)
qed

lemma no_colon_encode: "colon \<notin> set (base64_encode bs)"
proof -
  have "pad \<noteq> colon" by (simp add: colon_def pad_def)
  then have "colon \<notin> set (padding bs)"
    by (induction bs rule: padding.induct) auto
  moreover have "colon \<notin> set (map b64_char (sextets bs))"
    using sextets_lt b64_char_props(2) by force
  ultimately show ?thesis
    by (simp add: base64_encode_sextets)
qed

lemma values_of_chars: "map (\<lambda>c. the (b64_value c)) (map b64_char (sextets bs)) = sextets bs"
proof -
  have "\<forall>n \<in> set (sextets bs). the (b64_value (b64_char n)) = n"
    using sextets_lt b64_value_char by auto
  then show ?thesis
    by (simp add: map_idI)
qed

lemma pack_div: "y < k \<Longrightarrow> (x * k + y) div k = (x::nat)"
  by simp

lemma pack_mod: "y < k \<Longrightarrow> (x * k + y) mod k = (y::nat)"
  by simp

lemma first_octet:
  "unat a div 4 * 4 + (unat a mod 4 * 16 + unat (b :: 8 word) div 16) div 16 = unat a"
proof -
  have "unat b div 16 < 16" using unat_byte_lt [of b] by simp
  then have "(unat a mod 4 * 16 + unat b div 16) div 16 = unat a mod 4"
    by (rule pack_div)
  then show ?thesis by (simp only: div_mult_mod_eq)
qed

lemma second_octet:
  "(unat a mod 4 * 16 + unat (b :: 8 word) div 16) mod 16 * 16
     + (unat b mod 16 * 4 + unat (c :: 8 word) div 64) div 4 = unat b"
proof -
  have "unat b div 16 < 16" using unat_byte_lt [of b] by simp
  then have 1: "(unat a mod 4 * 16 + unat b div 16) mod 16 = unat b div 16"
    by (rule pack_mod)
  have "unat c div 64 < 4" using unat_byte_lt [of c] by simp
  then have 2: "(unat b mod 16 * 4 + unat c div 64) div 4 = unat b mod 16"
    by (rule pack_div)
  show ?thesis by (simp only: 1 2 div_mult_mod_eq)
qed

lemma second_octet_last:
  "(unat a mod 4 * 16 + unat (b :: 8 word) div 16) mod 16 * 16 + unat b mod 16 * 4 div 4 = unat b"
proof -
  have "unat b div 16 < 16" using unat_byte_lt [of b] by simp
  then have 1: "(unat a mod 4 * 16 + unat b div 16) mod 16 = unat b div 16"
    by (rule pack_mod)
  have 2: "unat b mod 16 * 4 div 4 = unat b mod 16" by simp
  show ?thesis by (simp only: 1 2 div_mult_mod_eq)
qed

lemma third_octet:
  "(unat b mod 16 * 4 + unat (c :: 8 word) div 64) mod 4 * 64 + unat c mod 64 = unat c"
proof -
  have "unat c div 64 < 4" using unat_byte_lt [of c] by simp
  then have 1: "(unat b mod 16 * 4 + unat c div 64) mod 4 = unat c div 64"
    by (rule pack_mod)
  show ?thesis by (simp only: 1 div_mult_mod_eq)
qed

lemma decode_sextets: "base64_decode (sextets bs) = map ucast bs"
proof (induction bs rule: sextets.induct)
  case 1 then show ?case by simp
next
  case (2 a)
  have "unat a div 4 * 4 + unat a mod 4 * 16 div 16 = unat a" by simp
  then show ?case by (simp only: sextets.simps base64_decode.simps) simp
next
  case (3 a b)
  show ?case
    by (simp only: sextets.simps base64_decode.simps first_octet second_octet_last) simp
next
  case (4 a b c rest)
  then show ?case
    by (simp only: sextets.simps base64_decode.simps append.simps first_octet second_octet
        third_octet) simp
qed

lemma atob_encode: "atob (base64_encode bs) = Inr (map ucast bs)"
proof -
  have "\<forall>c \<in> set (map b64_char (sextets bs)). b64_value c \<noteq> None"
    using sextets_lt b64_value_char by auto
  then show ?thesis
    using length_sextets [of bs]
    by (simp add: atob_def no_whitespace_encode strip_padding_encode values_of_chars decode_sextets
        Let_def del: set_map map_map)
qed

lemma ucast_byte_roundtrip: "map ucast (map ucast bs :: jsstring) = (bs :: Uint8Array)"
proof -
  have "ucast (ucast b :: 16 word) = b" for b :: "8 word"
    by (simp add: bit_eq_iff bit_simps)
  then show ?thesis by (simp add: map_idI)
qed

lemma binary_string: "c \<in> set (map ucast (bs :: Uint8Array) :: jsstring) \<Longrightarrow> \<not> 0xFF < c"
proof -
  have "(ucast (b :: 8 word) :: 16 word) \<le> 0xFF" for b
    using unat_byte_lt [of b]
    by (simp add: word_le_nat_alt unsigned_ucast_eq take_bit_nat_eq_self)
  then show "c \<in> set (map ucast (bs :: Uint8Array) :: jsstring) \<Longrightarrow> \<not> 0xFF < c"
    by (auto simp: not_less)
qed

lemma uint8ArrayToBase64_encode: "uint8ArrayToBase64 bs = Inr (base64_encode bs)"
  using binary_string [of _ bs]
  by (auto simp: uint8ArrayToBase64_def btoa_def ucast_byte_roundtrip simp del: map_map)

lemma base64ToUint8Array_encode: "base64ToUint8Array (base64_encode bs) = Inr bs"
  by (simp add: base64ToUint8Array_def atob_encode ucast_byte_roundtrip del: map_map)

subsection \<open>Decimal digits are read back by \<open>parseInt\<close>\<close>

lemma unat_digit_char: "d < 10 \<Longrightarrow> unat (of_nat (48 + d) :: 16 word) = 48 + d"
proof -
  assume "d < 10"
  have "unat (of_nat (48 + d) :: 16 word) = (48 + d) mod 2 ^ LENGTH(16)"
    by (simp only: unat_of_nat)
  then show ?thesis
    using \<open>d < 10\<close> by simp
qed

lemma digit_char:
  assumes "d < 10"
  shows "is_digit (of_nat (48 + d))" "unat (of_nat (48 + d) :: 16 word) - 48 = d"
  using assms unat_digit_char [OF assms]
  by (simp_all only: is_digit_def word_le_nat_alt) simp_all

lemma decimal_not_Nil: "decimal n \<noteq> []"
  by (subst decimal.simps) simp

lemma decimal_all_digits: "c \<in> set (decimal n) \<Longrightarrow> is_digit c"
proof (induction n arbitrary: c rule: decimal.induct)
  case (1 n)
  show ?case
  proof (cases "n < 10")
    case True
    then show ?thesis using 1(2) digit_char(1) [of n] by (simp add: decimal_digit)
  next
    case False
    then have "decimal n = decimal (n div 10) @ [of_nat (48 + n mod 10)]"
      by (rule decimal_more)
    then have "set (decimal n) = set (decimal (n div 10)) \<union> {of_nat (48 + n mod 10)}"
      by (simp only: set_append list.set)
    then have "c \<in> set (decimal (n div 10)) \<or> c = of_nat (48 + n mod 10)"
      using 1(2) by blast
    then show ?thesis
      using 1(1) [OF False] digit_char(1) [of "n mod 10"] by auto
  qed
qed

lemma digits_value_snoc: "digits_value (z @ [c]) = 10 * digits_value z + (unat c - 48)"
  by (simp add: digits_value_def)

lemma digits_value_decimal: "digits_value (decimal n) = n"
proof (induction n rule: decimal.induct)
  case (1 n)
  show ?case
  proof (cases "n < 10")
    case True
    then show ?thesis
      using digit_char(2) [of n] by (simp add: decimal_digit digits_value_def)
  next
    case False
    then show ?thesis
      using 1 [OF False] digit_char(2) [of "n mod 10"]
      by (simp add: decimal_more digits_value_snoc)
  qed
qed

lemma digit_properties:
  assumes "is_digit c"
  shows "\<not> StrWhiteSpaceChar c" "c \<noteq> 43" "c \<noteq> 45" "c \<noteq> colon"
  using assms by (auto simp: is_digit_def StrWhiteSpaceChar_def colon_def word_le_nat_alt)

lemma no_colon_decimal: "colon \<notin> set (decimal n)"
  using decimal_all_digits digit_properties(4) by blast

lemma parseInt10_decimal: "parseInt10 (decimal n) = Finite (of_nat n)"
proof -
  obtain c cs where d: "decimal n = c # cs"
    using decimal_not_Nil [of n] by (cases "decimal n") auto
  then have c: "is_digit c"
    using decimal_all_digits [of c n] by simp
  have "takeWhile is_digit (decimal n) = decimal n"
    using decimal_all_digits by simp
  then show ?thesis
    using d digit_properties(1-3) [OF c] digits_value_decimal [of n]
    by (simp add: parseInt10_def Let_def)
qed

subsection \<open>Text that UTF-8 encoding and decoding give back\<close>

text \<open>Every string of ASCII units is one.\<close>

lemma utf16_decode_ascii:
  "\<forall>c \<in> set x. c < 0x80 \<Longrightarrow> utf16_decode x = map unat x"
proof (induction x rule: utf16_decode.induct)
  case 1
  then show ?case by simp
next
  case (2 c)
  then have "unat c < 0x80" by (simp add: word_less_nat_alt)
  then show ?case by simp
next
  case (3 c d rest)
  then have "unat c < 0x80" by (simp add: word_less_nat_alt)
  then show ?case using 3 by simp
qed

lemma encode_ascii:
  "\<forall>c \<in> set x. c < 0x80 \<Longrightarrow> TextEncoder_encode x = map ucast x"
proof -
  assume a: "\<forall>c \<in> set x. c < 0x80"
  have "utf8_encode_scalar (unat c) = [ucast c]" if "c < 0x80" for c :: "16 word"
    using that by (simp add: utf8_encode_scalar_def word_less_nat_alt)
  then have "concat (map utf8_encode_scalar (map unat x)) = map ucast x"
    using a by (induction x) simp_all
  then show ?thesis
    using a by (simp add: TextEncoder_encode_def utf16_decode_ascii)
qed

lemma decode_ascii:
  "\<forall>b \<in> set bs. b < 0x80 \<Longrightarrow> utf8_decode (0, 0, 0x80, 0xBF) bs = map unat bs"
proof (induction bs)
  case Nil
  then show ?case by simp
next
  case (Cons b bs)
  then have "unat b \<le> 0x7F" by (simp add: word_less_nat_alt)
  then show ?case using Cons by (simp add: utf8_lead_def)
qed

lemma ascii_roundtrip:
  assumes "\<forall>c \<in> set x. c < 0x80"
  shows "TextDecoder_decode (TextEncoder_encode x) = x"
proof -
  let ?bs = "map ucast x :: Uint8Array"
  have small: "ucast c < (0x80 :: 8 word)" if "c < 0x80" for c :: "16 word"
    using that by (simp add: word_less_nat_alt unsigned_ucast_eq take_bit_nat_eq_self)
  then have bytes: "\<forall>b \<in> set ?bs. b < 0x80"
    using assms by auto
  then have "take 3 ?bs \<noteq> [0xEF, 0xBB, 0xBF]"
    by (cases x) auto
  moreover have "utf16_encode_scalar (unat b) = [ucast b]" if "b < 0x80" for b :: "8 word"
    using that by (simp add: utf16_encode_scalar_def word_less_nat_alt)
  then have "concat (map utf16_encode_scalar (map unat ?bs)) = map ucast ?bs"
    using bytes by (induction x) simp_all
  moreover have "ucast (ucast c :: 8 word) = c" if "c < 0x80" for c :: "16 word"
    using that
    by (simp add: word_less_nat_alt word_eq_iff_unsigned [where ?'a = nat] unsigned_ucast_eq
        unsigned_take_bit_eq take_bit_nat_eq_self)
  then have "map ucast ?bs = x"
    using assms by (induction x) simp_all
  ultimately show ?thesis
    using assms bytes by (simp add: TextDecoder_decode_def encode_ascii decode_ascii)
qed

text \<open>
  So is every well-formed string that does not begin with U+FEFF. First UTF-16: decoding
  a well-formed string gives scalar values, and encoding them gives the string back.
\<close>

lemma unat_unit_lt: "unat (c :: 16 word) < 65536"
  using unsigned_less [of c, where 'a = nat] by simp

lemma unat_of_nat_byte: "k < 256 \<Longrightarrow> unat (of_nat k :: 8 word) = k"
proof -
  assume "k < 256"
  have "unat (of_nat k :: 8 word) = k mod 2 ^ LENGTH(8)"
    by (simp only: unat_of_nat)
  then show ?thesis using \<open>k < 256\<close> by simp
qed

lemma utf16_pair:
  assumes "0xD800 \<le> unat c" "unat c \<le> 0xDBFF" "0xDC00 \<le> unat d" "unat d \<le> 0xDFFF"
  shows "utf16_encode_scalar (0x10000 + (unat c - 0xD800) * 0x400 + (unat d - 0xDC00)) = [c, d]"
    and "scalar_value (0x10000 + (unat c - 0xD800) * 0x400 + (unat d - 0xDC00))"
proof -
  let ?a = "unat c - 0xD800" and ?b = "unat d - 0xDC00"
  have b: "?b < 0x400" using assms by simp
  have a: "?a < 0x400" using assms by simp
  have "(?a * 0x400 + ?b) div 0x400 = ?a" "(?a * 0x400 + ?b) mod 0x400 = ?b"
    using b by simp_all
  then have "utf16_encode_scalar (0x10000 + ?a * 0x400 + ?b) =
      [of_nat (0xD800 + ?a), of_nat (0xDC00 + ?b)]"
    by (simp add: utf16_encode_scalar_def)
  moreover have "0xD800 + ?a = unat c" "0xDC00 + ?b = unat d"
    using assms by simp_all
  moreover have "of_nat (unat c) = c" "of_nat (unat d) = d"
    by simp_all
  ultimately show "utf16_encode_scalar (0x10000 + ?a * 0x400 + ?b) = [c, d]"
    by (simp only:)
  have "?a * 0x400 + ?b < 0x100000"
    using a b by simp
  then show "scalar_value (0x10000 + ?a * 0x400 + ?b)"
    by (simp add: scalar_value_def)
qed

lemma utf16_single:
  assumes "\<not> (0xD800 \<le> unat c \<and> unat c \<le> 0xDFFF)"
  shows "utf16_encode_scalar (unat c) = [c]" and "scalar_value (unat c)"
  using assms unat_unit_lt [of c] by (auto simp: utf16_encode_scalar_def scalar_value_def)

lemma utf16_roundtrip:
  "well_formed x \<Longrightarrow>
   list_all scalar_value (utf16_decode x) \<and> concat (map utf16_encode_scalar (utf16_decode x)) = x"
proof (induction x rule: utf16_decode.induct)
  case 1
  then show ?case by simp
next
  case (2 c)
  then have c: "\<not> (0xD800 \<le> unat c \<and> unat c \<le> 0xDFFF)" by simp
  show ?case using utf16_single [OF c] c by auto
next
  case (3 c d rest)
  show ?case
  proof (cases "0xD800 \<le> unat c \<and> unat c \<le> 0xDBFF")
    case True
    then have d: "0xDC00 \<le> unat d" "unat d \<le> 0xDFFF" and rest: "well_formed rest"
      using "3.prems" by simp_all
    have step: "utf16_decode (c # d # rest) =
        (0x10000 + (unat c - 0xD800) * 0x400 + (unat d - 0xDC00)) # utf16_decode rest"
      using True d by simp
    have ih: "list_all scalar_value (utf16_decode rest)
        \<and> concat (map utf16_encode_scalar (utf16_decode rest)) = rest"
      using "3.IH"(1) True d rest by blast
    show ?thesis
      unfolding step using utf16_pair [of c d] True d ih by simp
  next
    case False
    then have c: "\<not> (0xD800 \<le> unat c \<and> unat c \<le> 0xDFFF)" and rest: "well_formed (d # rest)"
      using "3.prems" by auto
    have step: "utf16_decode (c # d # rest) = unat c # utf16_decode (d # rest)"
      using False c by auto
    have ih: "list_all scalar_value (utf16_decode (d # rest))
        \<and> concat (map utf16_encode_scalar (utf16_decode (d # rest))) = d # rest"
      using "3.IH"(2) False rest by blast
    show ?thesis
      unfolding step using utf16_single [OF c] ih by simp
  qed
qed

text \<open>
  Then UTF-8, by the length of the sequence a scalar value is encoded as. The range the
  decoder allows for the second byte is narrower after the lead bytes \<open>E0\<close>, \<open>ED\<close>,
  \<open>F0\<close> and \<open>F4\<close>; the encoder stays inside it because it never writes an overlong
  form, a surrogate or a code point above U+10FFFF.
\<close>

lemma utf8_one:
  assumes "cp < 0x80"
  shows "utf8_decode (0, 0, 0x80, 0xBF) (utf8_encode_scalar cp @ rest) =
           cp # utf8_decode (0, 0, 0x80, 0xBF) rest"
proof -
  have "unat (of_nat cp :: 8 word) = cp"
    using assms by (simp add: unat_of_nat_byte)
  then show ?thesis
    using assms by (simp add: utf8_encode_scalar_def utf8_lead_def)
qed

lemma offset_mod: "q < m \<Longrightarrow> (m * k + q) mod m = (q::nat)"
  by simp

lemma lead_mod:
  "q < 32 \<Longrightarrow> (0xC0 + q) mod 32 = (q::nat)"
  "p < 16 \<Longrightarrow> (0xE0 + p) mod 16 = (p::nat)"
  "s < 8 \<Longrightarrow> (0xF0 + s) mod 8 = (s::nat)"
  "r < 64 \<Longrightarrow> (0x80 + r) mod 64 = (r::nat)"
  using offset_mod [of q 32 6] offset_mod [of p 16 14] offset_mod [of s 8 30]
    offset_mod [of r 64 2]
  by simp_all

lemma continuation:
  assumes "r < 64" "needed = 1 \<or> needed = 2 \<or> needed = 3"
  shows "utf8_decode (cp, needed, 0x80, 0xBF) (of_nat (0x80 + r) # bs) =
           (if needed = 1 then (cp * 64 + r) # utf8_decode (0, 0, 0x80, 0xBF) bs
            else utf8_decode (cp * 64 + r, needed - 1, 0x80, 0xBF) bs)"
proof -
  have b: "unat (of_nat (0x80 + r) :: 8 word) = 0x80 + r"
    by (rule unat_of_nat_byte) (use assms in simp)
  show ?thesis
    using assms lead_mod(4) [of r] by (simp only: utf8_decode.simps b) auto
qed

lemma utf8_two:
  assumes "0x80 \<le> cp" "cp < 0x800"
  shows "utf8_decode (0, 0, 0x80, 0xBF) (utf8_encode_scalar cp @ rest) =
           cp # utf8_decode (0, 0, 0x80, 0xBF) rest"
proof -
  let ?q = "cp div 64" and ?r = "cp mod 64"
  have q: "2 \<le> ?q" "?q < 32" using assms by simp_all
  have b1: "unat (of_nat (0xC0 + ?q) :: 8 word) = 0xC0 + ?q"
    by (rule unat_of_nat_byte) (use q in simp)
  have lead: "utf8_lead (of_nat (0xC0 + ?q)) = ([], (?q, 1, 0x80, 0xBF))"
    using q lead_mod(1) [of ?q] by (simp only: utf8_lead_def b1 Let_def) simp
  have enc: "utf8_encode_scalar cp = [of_nat (0xC0 + ?q), of_nat (0x80 + ?r)]"
    using assms by (simp add: utf8_encode_scalar_def)
  have "utf8_decode (0, 0, 0x80, 0xBF) ([of_nat (0xC0 + ?q), of_nat (0x80 + ?r)] @ rest) =
      utf8_decode (?q, 1, 0x80, 0xBF) (of_nat (0x80 + ?r) # rest)"
    by (simp only: append.simps utf8_decode.simps lead) simp
  also have "\<dots> = (?q * 64 + ?r) # utf8_decode (0, 0, 0x80, 0xBF) rest"
    using continuation [of ?r 1 ?q rest] by simp
  finally show ?thesis
    by (simp only: enc) simp
qed


lemma div_4096: "cp div 4096 = cp div 64 div (64::nat)"
  by (simp add: div_mult2_eq [symmetric])

lemma div_262144: "cp div 262144 = cp div 4096 div (64::nat)"
  by (simp add: div_mult2_eq [symmetric])

lemma three_parts: "(cp div 4096 * 64 + cp div 64 mod 64) * 64 + cp mod 64 = (cp::nat)"
  by (simp only: div_4096 div_mult_mod_eq)

lemma four_parts:
  "((cp div 262144 * 64 + cp div 4096 mod 64) * 64 + cp div 64 mod 64) * 64 + cp mod 64 = (cp::nat)"
  by (simp only: div_262144 div_mult_mod_eq three_parts)

lemma second_of_three:
  assumes "0x800 \<le> (cp::nat)" "cp < 0x10000" "\<not> (0xD800 \<le> cp \<and> cp \<le> 0xDFFF)"
  shows "cp div 4096 = 0 \<Longrightarrow> 32 \<le> cp div 64 mod 64"
    and "cp div 4096 = 13 \<Longrightarrow> cp div 64 mod 64 < 32"
proof -
  assume "cp div 4096 = 0"
  then have "cp < 4096" by simp
  then have "cp div 64 < 64" by simp
  moreover have "32 \<le> cp div 64" using assms(1) by simp
  ultimately show "32 \<le> cp div 64 mod 64" by simp
next
  assume p: "cp div 4096 = 13"
  then have "cp div 64 div 64 = 13" by (simp only: div_4096)
  then have parts: "cp div 64 = 13 * 64 + cp div 64 mod 64"
    using div_mult_mod_eq [of "cp div 64" 64] by simp
  have "cp div 4096 < 14" using p by simp
  then have "cp < 57344" by simp
  moreover have "53248 \<le> cp" using p by simp
  ultimately have "cp < 55296" using assms(3) by simp
  then have "cp div 64 < 864" by simp
  then show "cp div 64 mod 64 < 32" using parts by simp
qed

lemma second_of_four:
  assumes "0x10000 \<le> (cp::nat)" "cp < 0x110000"
  shows "cp div 262144 = 0 \<Longrightarrow> 16 \<le> cp div 4096 mod 64"
    and "cp div 262144 = 4 \<Longrightarrow> cp div 4096 mod 64 < 16"
proof -
  assume "cp div 262144 = 0"
  then have "cp < 262144" by simp
  then have "cp div 4096 < 64" by simp
  moreover have "16 \<le> cp div 4096" using assms(1) by simp
  ultimately show "16 \<le> cp div 4096 mod 64" by simp
next
  assume s: "cp div 262144 = 4"
  then have "cp div 4096 div 64 = 4" by (simp only: div_262144)
  then have "cp div 4096 = 4 * 64 + cp div 4096 mod 64"
    using div_mult_mod_eq [of "cp div 4096" 64] by simp
  moreover have "cp div 4096 < 272" using assms(2) by simp
  ultimately show "cp div 4096 mod 64 < 16" by simp
qed

lemma continuation_bounded:
  assumes "r < 64" "lower \<le> 0x80 + r" "0x80 + r \<le> upper" "needed = 2 \<or> needed = 3"
  shows "utf8_decode (cp, needed, lower, upper) (of_nat (0x80 + r) # bs) =
           utf8_decode (cp * 64 + r, needed - 1, 0x80, 0xBF) bs"
proof -
  have b: "unat (of_nat (0x80 + r) :: 8 word) = 0x80 + r"
    by (rule unat_of_nat_byte) (use assms in simp)
  show ?thesis
    using assms lead_mod(4) [of r] by (simp only: utf8_decode.simps b) auto
qed

lemma utf8_three:
  assumes "0x800 \<le> cp" "cp < 0x10000" "\<not> (0xD800 \<le> cp \<and> cp \<le> 0xDFFF)"
  shows "utf8_decode (0, 0, 0x80, 0xBF) (utf8_encode_scalar cp @ rest) =
           cp # utf8_decode (0, 0, 0x80, 0xBF) rest"
proof -
  let ?p = "cp div 4096" and ?q = "cp div 64 mod 64" and ?r = "cp mod 64"
  let ?lower = "if 0xE0 + ?p = 0xE0 then 0xA0 else (0x80::nat)"
  let ?upper = "if 0xE0 + ?p = 0xED then 0x9F else (0xBF::nat)"
  have p: "?p < 16" using assms by simp
  have b1: "unat (of_nat (0xE0 + ?p) :: 8 word) = 0xE0 + ?p"
    by (rule unat_of_nat_byte) (use p in simp)
  have lead: "utf8_lead (of_nat (0xE0 + ?p)) = ([], (?p, 2, ?lower, ?upper))"
    using p lead_mod(2) [of ?p] by (simp only: utf8_lead_def b1 Let_def) simp
  have enc: "utf8_encode_scalar cp =
      [of_nat (0xE0 + ?p), of_nat (0x80 + ?q), of_nat (0x80 + ?r)]"
    using assms by (simp add: utf8_encode_scalar_def)
  have lower: "?lower \<le> 0x80 + ?q"
    using second_of_three(1) [OF assms] by simp
  have "?q < 64" by simp
  then have upper: "0x80 + ?q \<le> ?upper"
    using second_of_three(2) [OF assms] by auto
  have "utf8_decode (0, 0, 0x80, 0xBF)
      ([of_nat (0xE0 + ?p), of_nat (0x80 + ?q), of_nat (0x80 + ?r)] @ rest) =
      utf8_decode (?p, 2, ?lower, ?upper) (of_nat (0x80 + ?q) # of_nat (0x80 + ?r) # rest)"
    by (simp only: append.simps utf8_decode.simps lead) simp
  also have "\<dots> = utf8_decode (?p * 64 + ?q, 1, 0x80, 0xBF) (of_nat (0x80 + ?r) # rest)"
    using continuation_bounded [OF _ lower upper, of 2 ?p] by simp
  also have "\<dots> = ((?p * 64 + ?q) * 64 + ?r) # utf8_decode (0, 0, 0x80, 0xBF) rest"
    using continuation [of ?r 1 "?p * 64 + ?q" rest] by simp
  finally show ?thesis
    by (simp only: enc three_parts)
qed

lemma utf8_four:
  assumes "0x10000 \<le> cp" "cp < 0x110000"
  shows "utf8_decode (0, 0, 0x80, 0xBF) (utf8_encode_scalar cp @ rest) =
           cp # utf8_decode (0, 0, 0x80, 0xBF) rest"
proof -
  let ?s = "cp div 262144" and ?p = "cp div 4096 mod 64" and ?q = "cp div 64 mod 64"
    and ?r = "cp mod 64"
  let ?lower = "if 0xF0 + ?s = 0xF0 then 0x90 else (0x80::nat)"
  let ?upper = "if 0xF0 + ?s = 0xF4 then 0x8F else (0xBF::nat)"
  have s: "?s < 5" using assms by simp
  have b1: "unat (of_nat (0xF0 + ?s) :: 8 word) = 0xF0 + ?s"
    by (rule unat_of_nat_byte) (use s in simp)
  have lead: "utf8_lead (of_nat (0xF0 + ?s)) = ([], (?s, 3, ?lower, ?upper))"
    using s lead_mod(3) [of ?s] by (simp only: utf8_lead_def b1 Let_def) simp
  have enc: "utf8_encode_scalar cp =
      [of_nat (0xF0 + ?s), of_nat (0x80 + ?p), of_nat (0x80 + ?q), of_nat (0x80 + ?r)]"
    using assms by (simp add: utf8_encode_scalar_def)
  have lower: "?lower \<le> 0x80 + ?p"
    using second_of_four(1) [OF assms] by simp
  have "?p < 64" by simp
  then have upper: "0x80 + ?p \<le> ?upper"
    using second_of_four(2) [OF assms] by auto
  have "utf8_decode (0, 0, 0x80, 0xBF)
      ([of_nat (0xF0 + ?s), of_nat (0x80 + ?p), of_nat (0x80 + ?q), of_nat (0x80 + ?r)] @ rest) =
      utf8_decode (?s, 3, ?lower, ?upper)
        (of_nat (0x80 + ?p) # of_nat (0x80 + ?q) # of_nat (0x80 + ?r) # rest)"
    by (simp only: append.simps utf8_decode.simps lead) simp
  also have "\<dots> = utf8_decode (?s * 64 + ?p, 2, 0x80, 0xBF)
      (of_nat (0x80 + ?q) # of_nat (0x80 + ?r) # rest)"
    using continuation_bounded [OF _ lower upper, of 3 ?s] by simp
  also have "\<dots> = utf8_decode ((?s * 64 + ?p) * 64 + ?q, 1, 0x80, 0xBF)
      (of_nat (0x80 + ?r) # rest)"
    using continuation [of ?q 2 "?s * 64 + ?p"] by simp
  also have "\<dots> = (((?s * 64 + ?p) * 64 + ?q) * 64 + ?r) # utf8_decode (0, 0, 0x80, 0xBF) rest"
    using continuation [of ?r 1 "(?s * 64 + ?p) * 64 + ?q" rest] by simp
  finally show ?thesis
    by (simp only: enc four_parts)
qed

lemma utf8_scalar:
  assumes "scalar_value cp"
  shows "utf8_decode (0, 0, 0x80, 0xBF) (utf8_encode_scalar cp @ rest) =
           cp # utf8_decode (0, 0, 0x80, 0xBF) rest"
proof -
  consider "cp < 0x80" | "0x80 \<le> cp" "cp < 0x800" | "0x800 \<le> cp" "cp < 0x10000"
    | "0x10000 \<le> cp"
    by linarith
  then show ?thesis
  proof cases
    case 1
    then show ?thesis by (rule utf8_one)
  next
    case 2
    then show ?thesis by (rule utf8_two)
  next
    case 3
    then show ?thesis using assms utf8_three [of cp rest] by (simp add: scalar_value_def)
  next
    case 4
    then show ?thesis using assms utf8_four [of cp rest] by (simp add: scalar_value_def)
  qed
qed

lemma utf8_roundtrip:
  "list_all scalar_value cps \<Longrightarrow>
   utf8_decode (0, 0, 0x80, 0xBF) (concat (map utf8_encode_scalar cps)) = cps"
  by (induction cps) (simp_all add: utf8_scalar)

text \<open>
  The encoded bytes begin with \<open>EF BB BF\<close> only if the string begins with U+FEFF, so
  the decoder removes nothing.
\<close>

lemma utf16_decode_first:
  "utf16_decode (c # rest) = cp # cps \<Longrightarrow> cp = 0xFEFF \<Longrightarrow> c = 0xFEFF"
proof -
  assume d: "utf16_decode (c # rest) = cp # cps" and cp: "cp = 0xFEFF"
  have "unat c = 0xFEFF"
  proof (cases rest)
    case Nil
    then show ?thesis using d cp by (simp split: if_splits)
  next
    case (Cons d' rest')
    then show ?thesis using d cp by (simp split: if_splits)
  qed
  then have "of_nat (unat c) = (of_nat 0xFEFF :: 16 word)" by (simp only:)
  then show ?thesis by simp
qed

lemma byte_order_mark_decoded:
  "utf8_decode (0, 0, 0x80, 0xBF) (0xEF # 0xBB # 0xBF # bs) =
     0xFEFF # utf8_decode (0, 0, 0x80, 0xBF) bs"
  by (simp add: utf8_lead_def)

lemma no_byte_order_mark:
  assumes "well_formed x" "x = [] \<or> hd x \<noteq> 0xFEFF"
  shows "take 3 (TextEncoder_encode x) \<noteq> [0xEF, 0xBB, 0xBF]"
proof
  assume t: "take 3 (TextEncoder_encode x) = [0xEF, 0xBB, 0xBF]"
  have "TextEncoder_encode x = take 3 (TextEncoder_encode x) @ drop 3 (TextEncoder_encode x)"
    by simp
  then have bytes: "TextEncoder_encode x = 0xEF # 0xBB # 0xBF # drop 3 (TextEncoder_encode x)"
    by (simp only: t append.simps)
  have "utf8_decode (0, 0, 0x80, 0xBF) (TextEncoder_encode x) = utf16_decode x"
    using utf16_roundtrip [OF assms(1)] by (simp add: TextEncoder_encode_def utf8_roundtrip)
  then have first: "utf16_decode x =
      0xFEFF # utf8_decode (0, 0, 0x80, 0xBF) (drop 3 (TextEncoder_encode x))"
    using bytes byte_order_mark_decoded by metis
  show False
  proof (cases x)
    case Nil
    then show ?thesis using t by (simp add: TextEncoder_encode_def)
  next
    case (Cons c rest)
    then show ?thesis using utf16_decode_first [of c rest] first assms(2) by simp
  qed
qed

lemma well_formed_roundtrip:
  assumes "well_formed x" "x = [] \<or> hd x \<noteq> 0xFEFF"
  shows "TextDecoder_decode (TextEncoder_encode x) = x"
proof -
  have "utf8_decode (0, 0, 0x80, 0xBF) (TextEncoder_encode x) = utf16_decode x"
    using utf16_roundtrip [OF assms(1)] by (simp add: TextEncoder_encode_def utf8_roundtrip)
  then show ?thesis
    using no_byte_order_mark [OF assms] utf16_roundtrip [OF assms(1)]
    by (simp add: TextDecoder_decode_def)
qed

section \<open>Properties of the module\<close>

subsection \<open>The format check of \<open>decrypt\<close>\<close>

text \<open>
  C2. When the argument of \<open>decrypt\<close>, after an optional leading \<open>base64:\<close> is removed,
  does not split on \<open>:\<close> into exactly four parts, \<open>decrypt\<close> throws the error
  \<open>Encrypted payload invalid. Expected 4 sections but got N\<close>, with \<open>N\<close> the number of
  parts, and the state is the one it started in: nothing was decoded, no key was
  imported or derived and nothing was decrypted.
\<close>

theorem decrypt_format_error:
  assumes "rest = (if startsWith c (lit ''base64:'') then drop 7 c else c)"
    and "length (split_on colon rest) \<noteq> 4"
  shows "decrypt P R c w =
     (Inl (Error (lit ''Encrypted payload invalid. Expected 4 sections but got ''
                   @ decimal (length (split_on colon rest)))), w)"
proof -
  have "length (lit ''base64:'') = 7" by (simp add: lit_def)
  then have "envelope_parts c = split_on colon rest"
    using assms(1) by (simp add: envelope_parts_def substring_def)
  then show ?thesis
    using assms(2) by (simp add: decrypt_def)
qed

theorem decrypt_format_error_witness:
  "decrypt demo (NumberValue 1000000) (lit ''base64:onlyonepart'') (node_world test_key) =
     (Inl (Error (lit ''Encrypted payload invalid. Expected 4 sections but got 1'')),
      node_world test_key)"
proof -
  have parts: "split_on colon (lit ''onlyonepart'') = [lit ''onlyonepart'']"
    by (simp add: lit_def colon_def)
  have rest: "lit ''onlyonepart'' =
      (if startsWith (lit ''base64:onlyonepart'') (lit ''base64:'')
       then drop 7 (lit ''base64:onlyonepart'') else lit ''base64:onlyonepart'')"
    by (simp add: startsWith_def lit_def)
  have n: "length (split_on colon (lit ''onlyonepart'')) \<noteq> 4"
    by (simp add: parts)
  show ?thesis
    using decrypt_format_error [OF rest n, of demo "NumberValue 1000000" "node_world test_key"]
    by (simp add: parts decimal_digit lit_def colon_def)
qed

subsection \<open>Environment objects: \<open>getEnvObject\<close> and \<open>mergeSecrets\<close>\<close>

lemma c_string_kept: "well_formed s \<Longrightarrow> 0 \<notin> set s \<Longrightarrow> c_string s = s"
proof -
  assume "well_formed s" and "0 \<notin> set s"
  then have "concat (map utf16_encode_scalar (utf16_decode s)) = s"
    and "\<forall>c \<in> set s. c \<noteq> 0"
    using utf16_roundtrip [of s] by auto
  then show ?thesis
    by (simp add: c_string_def)
qed

lemma set_property_kept:
  "kept_as_written k key val \<Longrightarrow> set_property k key val m = m(key \<mapsto> val)"
  by (cases k) (simp_all add: kept_as_written_def set_property_def c_string_kept)

lemma write_all_other:
  "\<forall>(k, v) \<in> set payload. kept_as_written kd k v \<Longrightarrow> key \<notin> fst ` set payload \<Longrightarrow>
   write_all kd m payload key = m key"
proof (induction payload arbitrary: m)
  case Nil
  then show ?case by simp
next
  case (Cons entry rest)
  obtain k v where entry: "entry = (k, v)" by (cases entry)
  then have "set_property kd k v m = m(k \<mapsto> v)"
    using Cons.prems(1) by (simp add: set_property_kept)
  moreover have "write_all kd (m(k \<mapsto> v)) rest key = (m(k \<mapsto> v)) key"
    using Cons.prems by (intro Cons.IH) auto
  ultimately show ?case
    using Cons.prems(2) entry by simp
qed

lemma write_all_member:
  "\<forall>(k, v) \<in> set payload. kept_as_written kd k v \<Longrightarrow> distinct (map fst payload) \<Longrightarrow>
   (key, val) \<in> set payload \<Longrightarrow> write_all kd m payload key = Some val"
proof (induction payload arbitrary: m)
  case Nil
  then show ?case by simp
next
  case (Cons entry rest)
  obtain k v where entry: "entry = (k, v)" by (cases entry)
  then have first: "set_property kd k v m = m(k \<mapsto> v)"
    using Cons.prems(1) by (simp add: set_property_kept)
  have kept: "\<forall>(k, v) \<in> set rest. kept_as_written kd k v"
    using Cons.prems(1) by simp
  show ?case
  proof (cases "(key, val) = (k, v)")
    case True
    then have "key \<notin> fst ` set rest" using Cons.prems entry by auto
    then have "write_all kd (m(k \<mapsto> v)) rest key = (m(k \<mapsto> v)) key"
      using kept by (intro write_all_other)
    then show ?thesis using True entry first by simp
  next
    case False
    then have "(key, val) \<in> set rest" "distinct (map fst rest)"
      using Cons.prems entry by auto
    then have "write_all kd (m(k \<mapsto> v)) rest key = Some val"
      using Cons.IH kept by blast
    then show ?thesis using entry first by simp
  qed
qed

lemma assign_then_write:
  "(assign a key val w)\<lparr>store := (store (assign a key val w))
        (a := write_all (kind (assign a key val w) a) (store (assign a key val w) a) rest)\<rparr> =
   w\<lparr>store := (store w)(a := write_all (kind w a) (store w a) ((key, val) # rest))\<rparr>"
  by (simp add: assign_def)

lemma assign_process_Env:
  "process w = Env a \<Longrightarrow>
   assign_process payload w = w\<lparr>store := (store w)(a := write_all (kind w a) (store w a) payload)\<rparr>"
proof (induction payload arbitrary: w)
  case Nil
  then show ?case by simp
next
  case (Cons entry rest)
  obtain key val where entry: "entry = (key, val)" by (cases entry)
  have "process (assign a key val w) = Env a"
    using Cons.prems by (simp add: assign_def)
  then have "assign_process rest (assign a key val w) =
      (assign a key val w)\<lparr>store := (store (assign a key val w))
        (a := write_all (kind (assign a key val w) a) (store (assign a key val w) a) rest)\<rparr>"
    by (rule Cons.IH)
  then have "assign_process rest (assign a key val w) =
      w\<lparr>store := (store w)(a := write_all (kind w a) (store w a) ((key, val) # rest))\<rparr>"
    by (simp only: assign_then_write)
  then show ?case
    using Cons.prems by (simp only: entry assign_process.simps host_object.case)
qed

lemma assign_target_PROCESS:
  "process w = Env a \<Longrightarrow>
   assign_target PROCESS payload w =
     (None, w\<lparr>store := (store w)(a := write_all (kind w a) (store w a) payload)\<rparr>)"
proof (induction payload arbitrary: w)
  case Nil
  then show ?case by simp
next
  case (Cons entry rest)
  obtain key val where entry: "entry = (key, val)" by (cases entry)
  have "process (assign a key val w) = Env a"
    using Cons.prems by (simp add: assign_def)
  then have "assign_target PROCESS rest (assign a key val w) =
      (None, (assign a key val w)\<lparr>store := (store (assign a key val w))
        (a := write_all (kind (assign a key val w) a) (store (assign a key val w) a) rest)\<rparr>)"
    by (rule Cons.IH)
  then have "assign_target PROCESS rest (assign a key val w) =
      (None, w\<lparr>store := (store w)(a := write_all (kind w a) (store w a) ((key, val) # rest))\<rparr>)"
    by (simp only: assign_then_write)
  then show ?case
    using Cons.prems
    by (simp only: entry assign_target.simps host_object.case host_object.distinct
        EnvTarget.distinct simp_thms if_True if_False)
qed

lemma assign_target_IMPORT_META:
  "import_meta w = Env a \<Longrightarrow>
   assign_target IMPORT_META payload w =
     (None, w\<lparr>store := (store w)(a := write_all (kind w a) (store w a) payload)\<rparr>)"
proof (induction payload arbitrary: w)
  case Nil
  then show ?case by simp
next
  case (Cons entry rest)
  obtain key val where entry: "entry = (key, val)" by (cases entry)
  have "import_meta (assign a key val w) = Env a"
    using Cons.prems by (simp add: assign_def)
  then have "assign_target IMPORT_META rest (assign a key val w) =
      (None, (assign a key val w)\<lparr>store := (store (assign a key val w))
        (a := write_all (kind (assign a key val w) a) (store (assign a key val w) a) rest)\<rparr>)"
    by (rule Cons.IH)
  then have "assign_target IMPORT_META rest (assign a key val w) =
      (None, w\<lparr>store := (store w)(a := write_all (kind w a) (store w a) ((key, val) # rest))\<rparr>)"
    by (simp only: assign_then_write)
  then show ?case
    using Cons.prems
    by (simp only: entry assign_target.simps host_object.case host_object.distinct
        EnvTarget.distinct simp_thms if_True if_False)
qed

lemma mergeSecrets_resolved:
  assumes "getEnvObject target w = Inr a"
  shows "mergeSecrets payload target w =
           (Inr a, w\<lparr>store := (store w)(a := write_all (kind w a) (store w a) payload)\<rparr>)"
proof (cases "import_meta w = Undefined")
  case True
  then have "process w = Env a"
    using assms by (auto simp: getEnvObject_def split: host_object.splits)
  then show ?thesis
    using assms True by (simp add: mergeSecrets_def assign_process_Env)
next
  case False
  show ?thesis
  proof (cases target)
    case PROCESS
    then have "process w = Env a"
      using assms False by (auto simp: getEnvObject_def split: host_object.splits)
    then show ?thesis
      using assms False PROCESS by (simp add: mergeSecrets_def assign_target_PROCESS)
  next
    case IMPORT_META
    then have "import_meta w = Env a"
      using assms False by (auto simp: getEnvObject_def split: host_object.splits)
    then show ?thesis
      using assms False IMPORT_META by (simp add: mergeSecrets_def assign_target_IMPORT_META)
  next
    case (OtherTarget t)
    then show ?thesis
      using assms False by (simp add: getEnvObject_def)
  qed
qed

lemma mergeSecrets_unresolved:
  "getEnvObject target w = Inl e \<Longrightarrow> mergeSecrets payload target w = (Inl e, w)"
  by (simp add: mergeSecrets_def)

lemma kept_A: "kept_as_written k (lit ''A'') (lit ''1'')"
  by (cases k) (simp_all add: kept_as_written_def lit_def)

lemma kept_B: "kept_as_written k (lit ''B'') (lit ''2'')"
  by (cases k) (simp_all add: kept_as_written_def lit_def)

text \<open>
  C9, as the code has it. When the target resolves to an environment object,
  \<open>mergeSecrets\<close> returns the reference \<open>getEnvObject\<close> gives for the target (and would
  give again afterwards). If the object keeps every entry of the payload as it is written
  (see \<open>kept_as_written\<close>: on the environment of the process, names and values without
  U+0000 and lone surrogates, names not empty and without \<open>=\<close>; on an ordinary object, no
  name \<open>__proto__\<close>), then in the object every key of the payload holds the payload's
  value and every other key holds what it held before; no other object of the store
  changes, so that whoever holds the same reference sees exactly these writes. The keys
  of a payload object are distinct.
\<close>

theorem mergeSecrets_writes_payload:
  assumes "getEnvObject target w = Inr a"
    and "distinct (map fst payload)"
    and "\<forall>(key, val) \<in> set payload. kept_as_written (kind w a) key val"
  shows "\<exists>w'. mergeSecrets payload target w = (Inr a, w')
           \<and> (\<forall>(key, val) \<in> set payload. store w' a key = Some val)
           \<and> (\<forall>key. key \<notin> fst ` set payload \<longrightarrow> store w' a key = store w a key)
           \<and> (\<forall>b. b \<noteq> a \<longrightarrow> store w' b = store w b)
           \<and> getEnvObject target w' = Inr a
           \<and> process w' = process w \<and> import_meta w' = import_meta w \<and> events w' = events w"
proof -
  let ?w' = "w\<lparr>store := (store w)(a := write_all (kind w a) (store w a) payload)\<rparr>"
  have "mergeSecrets payload target w = (Inr a, ?w')"
    using assms(1) by (rule mergeSecrets_resolved)
  moreover have "\<forall>(key, val) \<in> set payload. store ?w' a key = Some val"
    using assms(2,3) by (auto simp: write_all_member)
  moreover have "\<forall>key. key \<notin> fst ` set payload \<longrightarrow> store ?w' a key = store w a key"
    using assms(3) by (simp add: write_all_other)
  moreover have "getEnvObject target ?w' = getEnvObject target w"
    by (simp add: getEnvObject_def split: EnvTarget.splits)
  ultimately show ?thesis using assms(1) by simp
qed

theorem mergeSecrets_writes_payload_witness:
  "fst (mergeSecrets [(lit ''A'', lit ''1''), (lit ''B'', lit ''2'')] PROCESS
          (node_world [(lit ''A'', lit ''0''), (lit ''C'', lit ''9'')])) = Inr 0
   \<and> store (snd (mergeSecrets [(lit ''A'', lit ''1''), (lit ''B'', lit ''2'')] PROCESS
          (node_world [(lit ''A'', lit ''0''), (lit ''C'', lit ''9'')]))) 0 (lit ''A'') = Some (lit ''1'')
   \<and> store (snd (mergeSecrets [(lit ''A'', lit ''1''), (lit ''B'', lit ''2'')] PROCESS
          (node_world [(lit ''A'', lit ''0''), (lit ''C'', lit ''9'')]))) 0 (lit ''B'') = Some (lit ''2'')
   \<and> store (snd (mergeSecrets [(lit ''A'', lit ''1''), (lit ''B'', lit ''2'')] PROCESS
          (node_world [(lit ''A'', lit ''0''), (lit ''C'', lit ''9'')]))) 0 (lit ''C'') = Some (lit ''9'')"
proof -
  let ?w = "node_world [(lit ''A'', lit ''0''), (lit ''C'', lit ''9'')]"
  let ?p = "[(lit ''A'', lit ''1''), (lit ''B'', lit ''2'')]"
  have env: "getEnvObject PROCESS ?w = Inr 0"
    by (simp add: getEnvObject_def node_world_def)
  have keys: "distinct (map fst ?p)"
    by (simp add: lit_def)
  have kept: "\<forall>(key, val) \<in> set ?p. kept_as_written (kind ?w 0) key val"
    by (simp add: kept_A kept_B)
  have old: "store ?w 0 (lit ''C'') = Some (lit ''9'')"
    by (simp add: node_world_def lit_def)
  have other: "lit ''C'' \<notin> fst ` set ?p"
    by (simp add: lit_def)
  obtain w' where w': "mergeSecrets ?p PROCESS ?w = (Inr 0, w')"
      "\<forall>(key, val) \<in> set ?p. store w' 0 key = Some val"
      "\<forall>key. key \<notin> fst ` set ?p \<longrightarrow> store w' 0 key = store ?w 0 key"
    using mergeSecrets_writes_payload [OF env keys kept] by blast
  have "store w' 0 (lit ''C'') = Some (lit ''9'')"
    using w'(3) other old by simp
  moreover have "store w' 0 (lit ''A'') = Some (lit ''1'')" "store w' 0 (lit ''B'') = Some (lit ''2'')"
    using w'(2) by simp_all
  ultimately show ?thesis
    using w'(1) by simp
qed

text \<open>
  Entries that are not kept as they are written. On the environment of the process an
  assignment to the empty name does nothing, and an assignment to the name \<open>A\<close>, U+0000,
  \<open>B\<close> sets the variable \<open>A\<close>, which is no key of the payload. On an ordinary object an
  assignment of a string to \<open>__proto__\<close> does nothing.
\<close>

theorem mergeSecrets_entry_not_kept_counterexample:
  "fst (mergeSecrets [([], lit ''x'')] PROCESS (node_world [])) = Inr 0
   \<and> store (snd (mergeSecrets [([], lit ''x'')] PROCESS (node_world []))) 0 [] = None
   \<and> fst (mergeSecrets [([0x41, 0, 0x42], lit ''x'')] PROCESS (node_world [])) = Inr 0
   \<and> store (snd (mergeSecrets [([0x41, 0, 0x42], lit ''x'')] PROCESS (node_world []))) 0
        [0x41, 0, 0x42] = None
   \<and> lit ''A'' \<notin> fst ` set [([0x41, 0, 0x42], lit ''x'')]
   \<and> store (node_world []) 0 (lit ''A'') = None
   \<and> store (snd (mergeSecrets [([0x41, 0, 0x42], lit ''x'')] PROCESS (node_world []))) 0
        (lit ''A'') = Some (lit ''x'')
   \<and> fst (mergeSecrets [(lit ''__proto__'', lit ''x'')] IMPORT_META (bundler_world [] [])) = Inr 1
   \<and> store (snd (mergeSecrets [(lit ''__proto__'', lit ''x'')] IMPORT_META (bundler_world [] []))) 1
        (lit ''__proto__'') = None"
proof -
  have env: "getEnvObject PROCESS (node_world []) = Inr 0"
    by (simp add: getEnvObject_def node_world_def)
  have meta: "getEnvObject IMPORT_META (bundler_world [] []) = Inr 1"
    by (simp add: getEnvObject_def bundler_world_def)
  have empty: "set_property ProcessEnvironment [] (lit ''x'') Map.empty = Map.empty"
    by (simp add: set_property_def c_string_def)
  have cut: "set_property ProcessEnvironment [0x41, 0, 0x42] (lit ''x'') Map.empty =
      [lit ''A'' \<mapsto> lit ''x'']"
    by (simp add: set_property_def c_string_def utf16_encode_scalar_def lit_def)
  have proto: "set_property OrdinaryObject (lit ''__proto__'') (lit ''x'') Map.empty = Map.empty"
    by (simp add: set_property_def)
  have kinds: "kind (node_world []) 0 = ProcessEnvironment"
      "kind (bundler_world [] []) (Suc 0) = OrdinaryObject"
    by (simp_all add: node_world_def bundler_world_def node_kind_def)
  have stores: "store (node_world []) 0 = Map.empty"
      "store (bundler_world [] []) (Suc 0) = Map.empty"
    by (simp_all add: node_world_def bundler_world_def)
  have "lit ''A'' \<noteq> [0x41, 0, 0x42]"
    by (simp add: lit_def)
  then show ?thesis
    by (simp add: mergeSecrets_resolved [OF env] mergeSecrets_resolved [OF meta] kinds stores
        empty cut proto)
qed

text \<open>
  C10. Where \<open>import.meta\<close> is undefined the target plays no part: \<open>getEnvObject\<close>
  returns \<open>process.env\<close> when there is one and the error \<open>process.env is not available
  in this environment\<close> otherwise, \<open>mergeSecrets\<close> assigns the payload to \<open>process.env\<close>
  and returns it, and neither ever throws \<open>Unsupported environment target\<close>, whatever
  the target is.
\<close>

theorem import_meta_undefined_uses_process_env:
  assumes "import_meta w = Undefined"
  shows "getEnvObject target w =
           (case process w of Env a \<Rightarrow> Inr a | _ \<Rightarrow> Inl process_env_unavailable)
       \<and> mergeSecrets payload target w =
           (case process w of
              Env a \<Rightarrow> (Inr a, w\<lparr>store := (store w)(a := write_all (kind w a) (store w a) payload)\<rparr>)
            | _ \<Rightarrow> (Inl process_env_unavailable, w))
       \<and> getEnvObject target w \<noteq> Inl (Error (lit ''Unsupported environment target: '' @ t))
       \<and> fst (mergeSecrets payload target w)
           \<noteq> Inl (Error (lit ''Unsupported environment target: '' @ t))"
proof -
  have env: "getEnvObject target w =
      (case process w of Env a \<Rightarrow> Inr a | _ \<Rightarrow> Inl process_env_unavailable)"
    using assms by (simp add: getEnvObject_def)
  have differ: "process_env_unavailable \<noteq> Error (lit ''Unsupported environment target: '' @ t)"
    by (simp add: process_env_unavailable_def Error_def lit_def)
  show ?thesis
  proof (cases "process w")
    case (Env a)
    then have "getEnvObject target w = Inr a" using env by simp
    then show ?thesis
      using Env mergeSecrets_resolved [of target w a payload] by simp
  next
    case Undefined
    then have "getEnvObject target w = Inl process_env_unavailable" using env by simp
    then show ?thesis
      using Undefined differ mergeSecrets_unresolved [of target w process_env_unavailable payload]
      by simp
  next
    case NoEnv
    then have "getEnvObject target w = Inl process_env_unavailable" using env by simp
    then show ?thesis
      using NoEnv differ mergeSecrets_unresolved [of target w process_env_unavailable payload]
      by simp
  qed
qed

theorem import_meta_undefined_uses_process_env_witness:
  "getEnvObject IMPORT_META (no_meta_world test_key) = Inr 0
   \<and> fst (mergeSecrets [(lit ''A'', lit ''1'')] (OtherTarget (lit ''worker'')) (no_meta_world test_key)) = Inr 0
   \<and> store (snd (mergeSecrets [(lit ''A'', lit ''1'')] (OtherTarget (lit ''worker''))
         (no_meta_world test_key))) 0 (lit ''A'') = Some (lit ''1'')"
proof -
  have undefined: "import_meta (no_meta_world test_key) = Undefined"
    by (simp add: no_meta_world_def)
  have env: "process (no_meta_world test_key) = Env 0"
    by (simp add: no_meta_world_def)
  show ?thesis
    using import_meta_undefined_uses_process_env [OF undefined, of IMPORT_META "[(lit ''A'', lit ''1'')]"]
      import_meta_undefined_uses_process_env [OF undefined, of "OtherTarget (lit ''worker'')"
        "[(lit ''A'', lit ''1'')]"]
    by (simp add: env set_property_kept [OF kept_A])
qed

text \<open>
  A run with the target \<open>IMPORT_META\<close> where \<open>import.meta.env\<close> is an object of its own:
  the payload goes there, and \<open>process.env\<close> stays as it was.
\<close>

lemma mergeSecrets_import_meta_run:
  "fst (mergeSecrets [(lit ''A'', lit ''1'')] IMPORT_META (bundler_world test_key [])) = Inr 1
   \<and> store (snd (mergeSecrets [(lit ''A'', lit ''1'')] IMPORT_META (bundler_world test_key []))) 1
       (lit ''A'') = Some (lit ''1'')
   \<and> store (snd (mergeSecrets [(lit ''A'', lit ''1'')] IMPORT_META (bundler_world test_key []))) 0
       = map_of test_key"
proof -
  have "getEnvObject IMPORT_META (bundler_world test_key []) = Inr 1"
    by (simp add: getEnvObject_def bundler_world_def)
  then show ?thesis
    by (simp add: mergeSecrets_resolved set_property_kept [OF kept_A])
      (simp add: bundler_world_def)
qed

subsection \<open>\<open>loadSecrets\<close>\<close>

text \<open>\<open>decrypt\<close> changes nothing of the state but the record of calls.\<close>

lemma events_only_deriveKey:
  "deriveKey P R pass salt it w = (r, w') \<Longrightarrow> \<exists>evs. w' = w\<lparr>events := events w @ evs\<rparr>"
  by (auto simp: deriveKey_def record_event_def Let_def split: sum.splits)

lemma events_only_decrypt_try:
  assumes "decrypt_try P R rounds salt iv content w = (r, w')"
  shows "\<exists>evs. w' = w\<lparr>events := events w @ evs\<rparr>"
proof (cases "masterKey w")
  case (Inl e)
  then have "w' = w\<lparr>events := events w @ []\<rparr>"
    using assms by (simp add: decrypt_try_def)
  then show ?thesis by blast
next
  case (Inr pass)
  obtain k w1 where dk: "deriveKey P R pass salt (Some rounds) w = (k, w1)"
    by (cases "deriveKey P R pass salt (Some rounds) w")
  then obtain evs where w1: "w1 = w\<lparr>events := events w @ evs\<rparr>"
    using events_only_deriveKey by blast
  show ?thesis
  proof (cases k)
    case (Inl e)
    then have "w' = w1" using assms Inr dk by (simp add: decrypt_try_def)
    then show ?thesis using w1 by blast
  next
    case (Inr key)
    then have "w' = record_event Decrypt w1"
      using assms \<open>masterKey w = Inr pass\<close> dk
      by (auto simp: decrypt_try_def Let_def split: sum.splits)
    then have "w' = w\<lparr>events := events w @ (evs @ [Decrypt])\<rparr>"
      using w1 by (simp add: record_event_def)
    then show ?thesis by blast
  qed
qed

lemma events_only_decrypt:
  assumes "decrypt P R c w = (r, w')"
  shows "\<exists>evs. w' = w\<lparr>events := events w @ evs\<rparr>"
proof -
  have same: "w\<lparr>events := events w @ []\<rparr> = w" by simp
  show ?thesis
  proof (cases "\<exists>salt iv content. length (envelope_parts c) = 4
        \<and> base64ToUint8Array (envelope_parts c ! 1) = Inr salt
        \<and> base64ToUint8Array (envelope_parts c ! 2) = Inr iv
        \<and> base64ToUint8Array (envelope_parts c ! 3) = Inr content")
    case True
    then obtain salt iv content where d: "length (envelope_parts c) = 4"
        "base64ToUint8Array (envelope_parts c ! 1) = Inr salt"
        "base64ToUint8Array (envelope_parts c ! 2) = Inr iv"
        "base64ToUint8Array (envelope_parts c ! 3) = Inr content"
      by blast
    obtain r0 w0 where t: "decrypt_try P R (parseInt10 (envelope_parts c ! 0)) salt iv content w = (r0, w0)"
      by (cases "decrypt_try P R (parseInt10 (envelope_parts c ! 0)) salt iv content w")
    then have "w' = w0"
      using assms d by (auto simp: decrypt_def Let_def split: sum.splits)
    then show ?thesis using events_only_decrypt_try [OF t] by simp
  next
    case False
    then have "w' = w"
      using assms by (auto simp: decrypt_def Let_def split: sum.splits if_splits)
    then show ?thesis using same by metis
  qed
qed

lemma getEnvObject_events:
  "getEnvObject target (w\<lparr>events := evs\<rparr>) = getEnvObject target w"
  by (simp add: getEnvObject_def split: EnvTarget.splits)

lemma loadSecrets_catch_resolved:
  "getEnvObject target w = Inr a \<Longrightarrow>
   loadSecrets_catch target e w = (Inr a, w\<lparr>events := events w @ [ConsoleError (lit ''Failed to load secrets:'') e]\<rparr>)"
  by (simp add: loadSecrets_catch_def record_event_def getEnvObject_events Let_def)

lemma decrypt_wrong_parts:
  "length (envelope_parts c) \<noteq> 4 \<Longrightarrow>
   decrypt P R c w =
     (Inl (Error (lit ''Encrypted payload invalid. Expected 4 sections but got ''
                   @ decimal (length (envelope_parts c)))), w)"
  by (simp add: decrypt_def)

lemma not_an_envelope:
  "envelope_parts (lit ''not-a-real-envelope'') = [lit ''not-a-real-envelope'']"
  by (simp add: envelope_parts_def startsWith_def lit_def colon_def)

lemma decrypt_not_an_envelope:
  "decrypt P R (lit ''not-a-real-envelope'') w =
     (Inl (Error (lit ''Encrypted payload invalid. Expected 4 sections but got 1'')), w)"
proof -
  have n: "length (envelope_parts (lit ''not-a-real-envelope'')) \<noteq> 4"
    by (simp add: not_an_envelope)
  have d: "decimal (length (envelope_parts (lit ''not-a-real-envelope''))) = lit ''1''"
    unfolding not_an_envelope by (simp add: decimal_digit lit_def)
  have msg: "lit ''Encrypted payload invalid. Expected 4 sections but got '' @ lit ''1'' =
      lit ''Encrypted payload invalid. Expected 4 sections but got 1''"
    by (simp add: lit_def)
  show ?thesis
    using decrypt_wrong_parts [OF n, of P R w] by (simp only: d msg)
qed

text \<open>
  C5, as the code has it. \<open>loadSecrets\<close> returns normally whenever the target resolves
  to an environment object in the state it is called in. If \<open>decrypt\<close> throws, or
  \<open>JSON.parse\<close> throws on the decrypted text, the error is passed to \<open>console.error\<close>
  and the reference to the target's object is returned, with the store as it was. (The
  handler asks \<open>getEnvObject\<close> for the object again, so a target that does not resolve
  makes \<open>loadSecrets\<close> throw: see the run below.)
\<close>

theorem loadSecrets_total_for_resolvable_target:
  assumes "getEnvObject target w = Inr a"
  shows "(\<exists>w'. loadSecrets P R c target w = (Inr a, w'))
       \<and> (\<forall>e w1. decrypt P R c w = (Inl e, w1) \<longrightarrow>
            store w1 = store w
            \<and> loadSecrets P R c target w =
                (Inr a, w1\<lparr>events := events w1 @ [ConsoleError (lit ''Failed to load secrets:'') e]\<rparr>))
       \<and> (\<forall>json e w1. decrypt P R c w = (Inr json, w1) \<and> JSON_parse P json = Inl e \<longrightarrow>
            store w1 = store w
            \<and> loadSecrets P R c target w =
                (Inr a, w1\<lparr>events := events w1 @ [ConsoleError (lit ''Failed to load secrets:'') e]\<rparr>))"
proof -
  obtain r w1 where d: "decrypt P R c w = (r, w1)"
    by (cases "decrypt P R c w")
  then obtain evs where w1: "w1 = w\<lparr>events := events w @ evs\<rparr>"
    using events_only_decrypt by blast
  then have env1: "getEnvObject target w1 = Inr a" and store1: "store w1 = store w"
    using assms by (simp_all add: getEnvObject_events)
  have catch: "loadSecrets_catch target e w1 =
      (Inr a, w1\<lparr>events := events w1 @ [ConsoleError (lit ''Failed to load secrets:'') e]\<rparr>)" for e
    using env1 by (rule loadSecrets_catch_resolved)
  have merge: "mergeSecrets payload target w1 =
      (Inr a, w1\<lparr>store := (store w1)(a := write_all (kind w1 a) (store w1 a) payload)\<rparr>)" for payload
    using env1 by (rule mergeSecrets_resolved)
  have total: "\<exists>w'. loadSecrets P R c target w = (Inr a, w')"
    using d catch merge by (auto simp: loadSecrets_def split: sum.splits)
  have failed: "loadSecrets P R c target w =
      (Inr a, w1\<lparr>events := events w1 @ [ConsoleError (lit ''Failed to load secrets:'') e]\<rparr>)"
    if "r = Inl e \<or> (\<exists>json. r = Inr json \<and> JSON_parse P json = Inl e)" for e
    using that d catch by (auto simp: loadSecrets_def)
  show ?thesis
    using total failed store1 d by auto
qed

theorem loadSecrets_total_for_resolvable_target_witness:
  "loadSecrets demo (NumberValue 1000000) (lit ''not-a-real-envelope'') PROCESS (node_world test_key) =
     (Inr 0,
      (node_world test_key)\<lparr>events :=
         [ConsoleError (lit ''Failed to load secrets:'')
            (Error (lit ''Encrypted payload invalid. Expected 4 sections but got 1''))]\<rparr>)
   \<and> store (node_world test_key) 0 (lit ''GITOPS_SECRETS_MASTER_KEY'')
       = Some (lit ''test-master-key-16chars+'')"
proof -
  have env: "getEnvObject PROCESS (node_world test_key) = Inr 0"
    by (simp add: getEnvObject_def node_world_def)
  have "events (node_world test_key) = []"
    by (simp add: node_world_def)
  then show ?thesis
    using loadSecrets_total_for_resolvable_target [OF env, of demo "NumberValue 1000000"
        "lit ''not-a-real-envelope''"]
      decrypt_not_an_envelope [of demo "NumberValue 1000000" "node_world test_key"]
    by (simp add: node_world_def test_key_def)
qed

text \<open>
  \<open>loadSecrets\<close> does throw: in a Node.js ES module \<open>import.meta\<close> has no \<open>env\<close>, and
  with the target \<open>IMPORT_META\<close> the handler's own call of \<open>getEnvObject\<close> throws after
  the first error was logged.
\<close>

theorem loadSecrets_raises_counterexample:
  "loadSecrets demo (NumberValue 1000000) (lit ''not-a-real-envelope'') IMPORT_META
       (node_world test_key) =
     (Inl (Error (lit ''import.meta.env is not available in this environment'')),
      (node_world test_key)\<lparr>events :=
         [ConsoleError (lit ''Failed to load secrets:'')
            (Error (lit ''Encrypted payload invalid. Expected 4 sections but got 1''))]\<rparr>)"
  by (simp add: loadSecrets_def decrypt_not_an_envelope loadSecrets_catch_def record_event_def
      getEnvObject_def node_world_def)

text \<open>
  This is so for every input and every target that does not resolve: whatever happens
  before, the last thing \<open>loadSecrets\<close> does is to throw the error of \<open>getEnvObject\<close>.
\<close>

lemma loadSecrets_unresolved:
  assumes "getEnvObject target w = Inl e"
  shows "fst (loadSecrets P R c target w) = Inl e"
proof -
  obtain r w1 where d: "decrypt P R c w = (r, w1)"
    by (cases "decrypt P R c w")
  then obtain evs where w1: "w1 = w\<lparr>events := events w @ evs\<rparr>"
    using events_only_decrypt by blast
  then have env1: "getEnvObject target w1 = Inl e"
    using assms by (simp add: getEnvObject_events)
  have catch: "fst (loadSecrets_catch target err w1) = Inl e" for err
    using env1 by (simp add: loadSecrets_catch_def record_event_def getEnvObject_events Let_def)
  have merge: "mergeSecrets payload target w1 = (Inl e, w1)" for payload
    using env1 by (rule mergeSecrets_unresolved)
  show ?thesis
    using d catch merge by (auto simp: loadSecrets_def split: sum.splits)
qed

subsection \<open>\<open>encrypt\<close> and \<open>decrypt\<close> step by step\<close>

lemma split_on_no_sep: "sep \<notin> set a \<Longrightarrow> split_on sep a = [a]"
  by (induction a) auto

lemma split_on_append:
  "sep \<notin> set a \<Longrightarrow> split_on sep (a @ sep # rest) = a # split_on sep rest"
  by (induction a) auto

lemma masterKey_events: "masterKey (w\<lparr>events := evs\<rparr>) = masterKey w"
  by (simp add: masterKey_def split: host_object.splits)

lemma random_calls_next:
  "random_calls (w\<lparr>events := events w @ [RandomValues n]\<rparr>) = Suc (random_calls w)"
  by (simp add: random_calls_def)

lemma deriveKey_flat:
  "deriveKey P R pass salt arg w =
     (case subtle_importKey P (TextEncoder_encode pass) of
        Inl e \<Rightarrow> (Inl e, w\<lparr>events := events w @ [ImportKey]\<rparr>)
      | Inr imported \<Rightarrow>
          (subtle_deriveKey P salt (case arg of None \<Rightarrow> Number P R | Some n \<Rightarrow> n) imported,
           w\<lparr>events := events w @
              [ImportKey, DeriveKey (case arg of None \<Rightarrow> Number P R | Some n \<Rightarrow> n)]\<rparr>))"
  by (simp add: deriveKey_def record_event_def Let_def split: sum.splits)

lemma encrypt_flat:
  "encrypt P R x w =
     (let salt = map (getRandomValues P (random_calls w)) [0..<8];
          iv = map (getRandomValues P (Suc (random_calls w))) [0..<12]
      in case masterKey w of
           Inl e \<Rightarrow> (Inl e, after_random w [])
         | Inr pass \<Rightarrow>
             (case subtle_importKey P (TextEncoder_encode pass) of
                Inl e \<Rightarrow> (Inl e, after_random w [ImportKey])
              | Inr imported \<Rightarrow>
                  (case subtle_deriveKey P salt (Number P R) imported of
                     Inl e \<Rightarrow> (Inl e, after_random w [ImportKey, DeriveKey (Number P R)])
                   | Inr key \<Rightarrow>
                       (case subtle_encrypt P iv key (TextEncoder_encode x) of
                          Inl e \<Rightarrow>
                            (Inl e, after_random w [ImportKey, DeriveKey (Number P R), Encrypt])
                        | Inr encrypted \<Rightarrow>
                            (Inr (envelope (template R) (base64_encode salt) (base64_encode iv)
                                   (base64_encode encrypted)),
                             after_random w [ImportKey, DeriveKey (Number P R), Encrypt])))))"
  by (simp add: encrypt_def crypto_getRandomValues_def record_event_def random_calls_next
      masterKey_events deriveKey_flat uint8ArrayToBase64_encode after_random_def Let_def
      split: sum.splits)

lemma decrypt_try_flat:
  "decrypt_try P R rounds salt iv content w =
     (case masterKey w of
        Inl e \<Rightarrow> (Inl e, w)
      | Inr pass \<Rightarrow>
          (case subtle_importKey P (TextEncoder_encode pass) of
             Inl e \<Rightarrow> (Inl e, w\<lparr>events := events w @ [ImportKey]\<rparr>)
           | Inr imported \<Rightarrow>
               (case subtle_deriveKey P salt rounds imported of
                  Inl e \<Rightarrow> (Inl e, w\<lparr>events := events w @ [ImportKey, DeriveKey rounds]\<rparr>)
                | Inr key \<Rightarrow>
                    (case subtle_decrypt P iv key content of
                       Inl e \<Rightarrow>
                         (Inl e, w\<lparr>events := events w @ [ImportKey, DeriveKey rounds, Decrypt]\<rparr>)
                     | Inr decrypted \<Rightarrow>
                         (Inr (TextDecoder_decode decrypted),
                          w\<lparr>events := events w @ [ImportKey, DeriveKey rounds, Decrypt]\<rparr>)))))"
  by (simp add: decrypt_try_def deriveKey_flat record_event_def Let_def split: sum.splits)

lemma envelope_parts_envelope:
  assumes "colon \<notin> set r" "colon \<notin> set s" "colon \<notin> set i" "colon \<notin> set c"
  shows "envelope_parts (envelope r s i c) = [r, s, i, c]"
proof -
  have "envelope r s i c = lit ''base64:'' @ (r @ colon # s @ colon # i @ colon # c)"
    by (simp add: envelope_def lit_def colon_def)
  then have "envelope_parts (envelope r s i c) = split_on colon (r @ colon # s @ colon # i @ colon # c)"
    by (simp add: envelope_parts_def startsWith_def substring_def)
  then show ?thesis
    using assms by (simp add: split_on_append split_on_no_sep)
qed

lemma decrypt_envelope:
  assumes "colon \<notin> set r"
  shows "decrypt P R (envelope r (base64_encode salt) (base64_encode iv) (base64_encode content)) w =
     (case decrypt_try P R (parseInt10 r) salt iv content w of
        (Inl error, w') \<Rightarrow> (Inl (Error (lit ''Decryption failed: '' @ message_of error)), w')
      | (Inr decrypted, w') \<Rightarrow> (Inr decrypted, w'))"
  using assms
  by (simp add: decrypt_def envelope_parts_envelope no_colon_encode base64ToUint8Array_encode)

subsection \<open>The passphrase check of \<open>encrypt\<close>\<close>

lemma masterKey_unset_or_short:
  assumes "process w = Env a"
    and "case store w a (lit ''GITOPS_SECRETS_MASTER_KEY'') of None \<Rightarrow> True | Some v \<Rightarrow> length v < 16"
  shows "masterKey w = Inl masterKey_error"
  using assms by (auto simp: masterKey_def split: option.splits)

text \<open>
  C3, as the code has it. When \<open>GITOPS_SECRETS_MASTER_KEY\<close> is unset or shorter than 16
  units, \<open>encrypt\<close> throws the configuration error of \<open>masterKey\<close>. It does so after the
  salt and the IV were drawn from the random source, which are the first two statements
  of \<open>encrypt\<close>, and before any key is imported or derived and anything is encrypted.
\<close>

theorem encrypt_rejects_passphrase_after_random:
  assumes "process w = Env a"
    and "case store w a (lit ''GITOPS_SECRETS_MASTER_KEY'') of None \<Rightarrow> True | Some v \<Rightarrow> length v < 16"
  shows "encrypt P R x w =
           (Inl masterKey_error, w\<lparr>events := events w @ [RandomValues 8, RandomValues 12]\<rparr>)"
  using masterKey_unset_or_short [OF assms]
  by (simp add: encrypt_flat after_random_def)

theorem encrypt_rejects_passphrase_after_random_witness:
  "encrypt demo (NumberValue 1000000) (lit ''x'')
       (node_world [(lit ''GITOPS_SECRETS_MASTER_KEY'', lit ''too-short'')]) =
     (Inl masterKey_error,
      (node_world [(lit ''GITOPS_SECRETS_MASTER_KEY'', lit ''too-short'')])
        \<lparr>events := [RandomValues 8, RandomValues 12]\<rparr>)"
proof -
  let ?w = "node_world [(lit ''GITOPS_SECRETS_MASTER_KEY'', lit ''too-short'')]"
  have p: "process ?w = Env 0"
    by (simp add: node_world_def)
  have k: "case store ?w 0 (lit ''GITOPS_SECRETS_MASTER_KEY'') of None \<Rightarrow> True | Some v \<Rightarrow> length v < 16"
    by (simp add: node_world_def lit_def)
  have "events ?w = []"
    by (simp add: node_world_def)
  then show ?thesis
    using encrypt_rejects_passphrase_after_random [OF p k, of demo "NumberValue 1000000" "lit ''x''"]
    by simp
qed

text \<open>
  The run with the variable unset: the error is the configuration error, and the random
  source was called twice on the way.
\<close>

theorem encrypt_draws_random_before_passphrase_counterexample:
  "fst (encrypt demo (NumberValue 1000000) (lit ''x'') (node_world [])) = Inl masterKey_error
   \<and> events (node_world []) = []
   \<and> events (snd (encrypt demo (NumberValue 1000000) (lit ''x'') (node_world [])))
       = [RandomValues 8, RandomValues 12]
   \<and> random_calls (snd (encrypt demo (NumberValue 1000000) (lit ''x'') (node_world [])))
       \<noteq> random_calls (node_world [])"
proof -
  have "masterKey (node_world []) = Inl masterKey_error"
    by (simp add: masterKey_def node_world_def)
  then show ?thesis
    by (simp add: encrypt_flat after_random_def node_world_def random_calls_def)
qed

subsection \<open>Runs on the small platform\<close>

lemmas demo_simps =
  demo_def demo_deriveKey_def demo_encrypt_def demo_decrypt_def demo_tag_def demo_Number_def
  OperationError_def

lemmas text_simps =
  TextEncoder_encode_def TextDecoder_decode_def utf8_encode_scalar_def utf8_lead_def
  utf16_encode_scalar_def

lemma masterKey_test_key:
  "masterKey ((node_world test_key)\<lparr>events := evs\<rparr>) = Inr (lit ''test-master-key-16chars+'')"
  by (simp add: masterKey_def node_world_def test_key_def lit_def)

lemma encode_test_key:
  "TextEncoder_encode (lit ''test-master-key-16chars+'') =
     [116, 101, 115, 116, 45, 109, 97, 115, 116, 101, 114, 45, 107, 101, 121, 45, 49, 54, 99, 104,
      97, 114, 115, 43]"
  by (simp add: text_simps lit_def)

lemma demo_salt: "map (getRandomValues demo k) [0..<8] = [1, 2, 3, 4, 5, 6, 7, 8]"
  by (simp add: demo_def upt_rec [of _ 8] )


lemma demo_iv: "map (getRandomValues demo k) [0..<12] = [1, 2, 3, 4, 5, 6, 7, 8, 9, 10, 11, 12]"
  by (simp add: demo_def upt_rec [of _ 12])

lemma decimal_million: "decimal 1000000 = lit ''1000000''"
  by (simp add: decimal_digit decimal_more lit_def)

lemma demo_key_million:
  "subtle_deriveKey demo [1, 2, 3, 4, 5, 6, 7, 8] (Finite 1000000)
     [116, 101, 115, 116, 45, 109, 97, 115, 116, 101, 114, 45, 107, 101, 121, 45, 49, 54, 99, 104,
      97, 114, 115, 43] =
   Inr [116, 101, 115, 116, 45, 109, 97, 115, 116, 101, 114, 45, 107, 101, 121, 45, 49, 54, 99, 104,
      97, 114, 115, 43, 1, 2, 3, 4, 5, 6, 7, 8, 49, 48, 48, 48, 48, 48, 48]"
  by (simp add: demo_simps decimal_million lit_def)

lemma demo_import: "subtle_importKey demo raw = Inr raw"
  by (simp add: demo_def)

lemma demo_cipher_hi:
  "subtle_encrypt demo [1, 2, 3, 4, 5, 6, 7, 8, 9, 10, 11, 12]
      [116, 101, 115, 116, 45, 109, 97, 115, 116, 101, 114, 45, 107, 101, 121, 45, 49, 54, 99, 104,
       97, 114, 115, 43, 1, 2, 3, 4, 5, 6, 7, 8, 49, 48, 48, 48, 48, 48, 48]
      (TextEncoder_encode (lit ''hi'')) = Inr [234, 235, 84]"
  by (simp add: demo_simps text_simps lit_def)

lemma demo_envelope_hi:
  "envelope (template (NumberValue 1000000)) (base64_encode [1, 2, 3, 4, 5, 6, 7, 8])
      (base64_encode [1, 2, 3, 4, 5, 6, 7, 8, 9, 10, 11, 12]) (base64_encode [234, 235, 84]) =
   lit ''base64:1000000:AQIDBAUGBwg=:AQIDBAUGBwgJCgsM:6utU''"
  by (simp add: envelope_def decimal_million b64_char_def pad_def colon_def lit_def)

lemma demo_encrypt_hi:
  "encrypt demo (NumberValue 1000000) (lit ''hi'') ((node_world test_key)\<lparr>events := evs\<rparr>) =
     (Inr (lit ''base64:1000000:AQIDBAUGBwg=:AQIDBAUGBwgJCgsM:6utU''),
      (node_world test_key)\<lparr>events := evs @
         [RandomValues 8, RandomValues 12, ImportKey, DeriveKey (Finite 1000000), Encrypt]\<rparr>)"
proof -
  have "encrypt demo (NumberValue 1000000) (lit ''hi'') ((node_world test_key)\<lparr>events := evs\<rparr>) =
     (Inr (lit ''base64:1000000:AQIDBAUGBwg=:AQIDBAUGBwgJCgsM:6utU''),
      after_random ((node_world test_key)\<lparr>events := evs\<rparr>)
         [ImportKey, DeriveKey (Finite 1000000), Encrypt])"
    by (simp only: encrypt_flat Let_def masterKey_test_key sum.case encode_test_key demo_salt
        demo_iv demo_import Number.simps of_nat_numeral demo_key_million demo_cipher_hi
        demo_envelope_hi)
  then show ?thesis
    by (simp add: after_random_def)
qed

subsection \<open>The number of rounds \<open>encrypt\<close> uses\<close>

lemma encrypt_fst_cong:
  "masterKey w' = masterKey w \<Longrightarrow> random_calls w' = random_calls w \<Longrightarrow>
   fst (encrypt P R x w') = fst (encrypt P R x w)"
  by (simp add: encrypt_flat Let_def split: sum.splits)

lemma rounds_variable_distinct:
  "lit ''GITOPS_SECRETS_PBKDF2_ROUNDS'' \<noteq> lit ''GITOPS_SECRETS_MASTER_KEY''"
  by (simp add: lit_def)

lemma rounds_variable_name:
  "c_string (lit ''GITOPS_SECRETS_PBKDF2_ROUNDS'') = lit ''GITOPS_SECRETS_PBKDF2_ROUNDS''"
  by (rule c_string_kept) (simp_all add: lit_def)

lemma set_rounds_variable:
  "set_property k (lit ''GITOPS_SECRETS_PBKDF2_ROUNDS'') v m (lit ''GITOPS_SECRETS_MASTER_KEY'') =
     m (lit ''GITOPS_SECRETS_MASTER_KEY'')"
  using rounds_variable_distinct
  by (cases k) (simp_all add: set_property_def rounds_variable_name Let_def)

lemma masterKey_assign_rounds:
  "masterKey (assign b (lit ''GITOPS_SECRETS_PBKDF2_ROUNDS'') v w) = masterKey w"
  by (simp add: masterKey_def assign_def set_rounds_variable split: host_object.splits)

lemma kept_rounds: "kept_as_written k (lit ''GITOPS_SECRETS_PBKDF2_ROUNDS'') (lit ''5000'')"
  by (cases k) (simp_all add: kept_as_written_def lit_def)

lemma random_calls_assign: "random_calls (assign b key v w) = random_calls w"
  by (simp add: random_calls_def assign_def)

lemma encrypt_success:
  assumes "encrypt P R x w = (Inr e, w')"
  shows "\<exists>pass imported key encrypted.
           masterKey w = Inr pass
         \<and> subtle_importKey P (TextEncoder_encode pass) = Inr imported
         \<and> subtle_deriveKey P (map (getRandomValues P (random_calls w)) [0..<8]) (Number P R) imported
             = Inr key
         \<and> subtle_encrypt P (map (getRandomValues P (Suc (random_calls w))) [0..<12]) key
             (TextEncoder_encode x) = Inr encrypted
         \<and> e = envelope (template R)
                 (base64_encode (map (getRandomValues P (random_calls w)) [0..<8]))
                 (base64_encode (map (getRandomValues P (Suc (random_calls w))) [0..<12]))
                 (base64_encode encrypted)
         \<and> w' = after_random w [ImportKey, DeriveKey (Number P R), Encrypt]"
  using assms by (auto simp: encrypt_flat Let_def split: sum.splits)

text \<open>
  C7, as the code has it. The number of rounds \<open>encrypt\<close> derives the key with and the
  text it writes into the envelope both come from the module constant \<open>PBKDF2_ROUNDS\<close>,
  which was computed from the environment when the module was loaded. Assigning
  \<open>GITOPS_SECRETS_PBKDF2_ROUNDS\<close> afterwards, in whatever environment object, changes
  nothing of what \<open>encrypt\<close> returns.
\<close>

theorem encrypt_rounds_fixed_at_load:
  "fst (encrypt P R x (assign b (lit ''GITOPS_SECRETS_PBKDF2_ROUNDS'') v w)) = fst (encrypt P R x w)
   \<and> (\<forall>e w'. encrypt P R x w = (Inr e, w') \<longrightarrow>
         (\<exists>salt iv encrypted. e = envelope (template R) salt iv encrypted)
         \<and> DeriveKey (Number P R) \<in> set (events w'))"
proof -
  have "fst (encrypt P R x (assign b (lit ''GITOPS_SECRETS_PBKDF2_ROUNDS'') v w)) =
      fst (encrypt P R x w)"
    by (rule encrypt_fst_cong) (simp_all add: masterKey_assign_rounds random_calls_assign)
  moreover have "(\<exists>salt iv encrypted. e = envelope (template R) salt iv encrypted)
      \<and> DeriveKey (Number P R) \<in> set (events w')" if "encrypt P R x w = (Inr e, w')" for e w'
    using encrypt_success [OF that] by (auto simp: after_random_def)
  ultimately show ?thesis by blast
qed

theorem encrypt_rounds_fixed_at_load_witness:
  "PBKDF2_ROUNDS (map_of test_key) = NumberValue 1000000
   \<and> fst (encrypt demo (PBKDF2_ROUNDS (map_of test_key)) (lit ''hi'')
        (assign 0 (lit ''GITOPS_SECRETS_PBKDF2_ROUNDS'') (lit ''5000'') (node_world test_key))) =
      Inr (envelope (lit ''1000000'') (lit ''AQIDBAUGBwg='') (lit ''AQIDBAUGBwgJCgsM'') (lit ''6utU''))
   \<and> DeriveKey (Finite 1000000)
        \<in> set (events (snd (encrypt demo (PBKDF2_ROUNDS (map_of test_key)) (lit ''hi'')
              (node_world test_key))))"
proof -
  have load: "PBKDF2_ROUNDS (map_of test_key) = NumberValue 1000000"
    by (simp add: PBKDF2_ROUNDS_def test_key_def lit_def)
  have run: "encrypt demo (NumberValue 1000000) (lit ''hi'') (node_world test_key) =
      (Inr (lit ''base64:1000000:AQIDBAUGBwg=:AQIDBAUGBwgJCgsM:6utU''),
       (node_world test_key)\<lparr>events :=
          [RandomValues 8, RandomValues 12, ImportKey, DeriveKey (Finite 1000000), Encrypt]\<rparr>)"
    using demo_encrypt_hi [of "events (node_world test_key)"] by (simp add: node_world_def)
  have shape: "lit ''base64:1000000:AQIDBAUGBwg=:AQIDBAUGBwgJCgsM:6utU'' =
      envelope (lit ''1000000'') (lit ''AQIDBAUGBwg='') (lit ''AQIDBAUGBwgJCgsM'') (lit ''6utU'')"
    by (simp add: envelope_def lit_def colon_def)
  show ?thesis
    using encrypt_rounds_fixed_at_load [of demo "NumberValue 1000000" "lit ''hi''" 0 "lit ''5000''"
        "node_world test_key"] run
    by (simp add: load shape)
qed

text \<open>
  Two calls in one process, the variable unset when the module was loaded and set to
  \<open>5000\<close> between the calls: both envelopes carry \<open>1000000\<close>.
\<close>

theorem encrypt_ignores_changed_rounds_counterexample:
  "PBKDF2_ROUNDS (map_of test_key) = NumberValue 1000000
   \<and> fst (encrypt demo (NumberValue 1000000) (lit ''hi'') (node_world test_key)) =
       Inr (lit ''base64:1000000:AQIDBAUGBwg=:AQIDBAUGBwgJCgsM:6utU'')
   \<and> store (assign 0 (lit ''GITOPS_SECRETS_PBKDF2_ROUNDS'') (lit ''5000'')
         (snd (encrypt demo (NumberValue 1000000) (lit ''hi'') (node_world test_key))))
       0 (lit ''GITOPS_SECRETS_PBKDF2_ROUNDS'') = Some (lit ''5000'')
   \<and> fst (encrypt demo (NumberValue 1000000) (lit ''hi'')
         (assign 0 (lit ''GITOPS_SECRETS_PBKDF2_ROUNDS'') (lit ''5000'')
            (snd (encrypt demo (NumberValue 1000000) (lit ''hi'') (node_world test_key))))) =
       Inr (lit ''base64:1000000:AQIDBAUGBwg=:AQIDBAUGBwgJCgsM:6utU'')
   \<and> envelope_parts (lit ''base64:1000000:AQIDBAUGBwg=:AQIDBAUGBwgJCgsM:6utU'') ! 0 = lit ''1000000''"
proof -
  let ?w1 = "(node_world test_key)\<lparr>events :=
          [RandomValues 8, RandomValues 12, ImportKey, DeriveKey (Finite 1000000), Encrypt]\<rparr>"
  have load: "PBKDF2_ROUNDS (map_of test_key) = NumberValue 1000000"
    by (simp add: PBKDF2_ROUNDS_def test_key_def lit_def)
  have first: "encrypt demo (NumberValue 1000000) (lit ''hi'') (node_world test_key) =
      (Inr (lit ''base64:1000000:AQIDBAUGBwg=:AQIDBAUGBwgJCgsM:6utU''), ?w1)"
    using demo_encrypt_hi [of "events (node_world test_key)"] by (simp add: node_world_def)
  have "fst (encrypt demo (NumberValue 1000000) (lit ''hi'')
        (assign 0 (lit ''GITOPS_SECRETS_PBKDF2_ROUNDS'') (lit ''5000'') ?w1)) =
      fst (encrypt demo (NumberValue 1000000) (lit ''hi'') ?w1)"
    by (rule encrypt_fst_cong) (simp_all add: masterKey_assign_rounds random_calls_assign)
  then have second: "fst (encrypt demo (NumberValue 1000000) (lit ''hi'')
        (assign 0 (lit ''GITOPS_SECRETS_PBKDF2_ROUNDS'') (lit ''5000'') ?w1)) =
      Inr (lit ''base64:1000000:AQIDBAUGBwg=:AQIDBAUGBwgJCgsM:6utU'')"
    by (simp add: demo_encrypt_hi)
  have parts: "envelope_parts (lit ''base64:1000000:AQIDBAUGBwg=:AQIDBAUGBwgJCgsM:6utU'') ! 0 =
      lit ''1000000''"
    by (simp add: envelope_parts_def startsWith_def substring_def lit_def colon_def)
  have "store (assign 0 (lit ''GITOPS_SECRETS_PBKDF2_ROUNDS'') (lit ''5000'') ?w1)
       0 (lit ''GITOPS_SECRETS_PBKDF2_ROUNDS'') = Some (lit ''5000'')"
    by (simp add: assign_def set_property_kept [OF kept_rounds])
  then show ?thesis
    using load first second parts by simp
qed

subsection \<open>Which failures \<open>decrypt\<close> wraps\<close>

lemmas atob_simps =
  base64ToUint8Array_def atob_def strip_padding_def ascii_whitespace_def b64_value_def pad_def

lemma decrypt_decoded:
  assumes "envelope_parts c = [r, s, i, d]"
    and "base64ToUint8Array s = Inr salt"
    and "base64ToUint8Array i = Inr iv"
    and "base64ToUint8Array d = Inr content"
  shows "decrypt P R c w =
     (case decrypt_try P R (parseInt10 r) salt iv content w of
        (Inl error, w') \<Rightarrow> (Inl (Error (lit ''Decryption failed: '' @ message_of error)), w')
      | (Inr decrypted, w') \<Rightarrow> (Inr decrypted, w'))"
  using assms by (simp add: decrypt_def)

lemma decrypt_undecodable:
  assumes "envelope_parts c = [r, s, i, d]"
    and "base64ToUint8Array s = Inl e
         \<or> (\<exists>salt. base64ToUint8Array s = Inr salt
              \<and> (base64ToUint8Array i = Inl e
                  \<or> (\<exists>iv. base64ToUint8Array i = Inr iv \<and> base64ToUint8Array d = Inl e)))"
  shows "decrypt P R c w = (Inl e, w)"
  using assms by (auto simp: decrypt_def)

text \<open>
  C4, as the code has it. For an argument that splits into four parts, the three
  \<open>base64ToUint8Array\<close> calls come before the \<open>try\<close> block. When all three succeed,
  whatever the block throws (the error of \<open>masterKey\<close>, of the key import, of the key
  derivation or of the AES-GCM decryption, see \<open>decrypt_try_flat\<close>) is thrown again as
  an \<open>Error\<close> whose message is \<open>Decryption failed: \<close> followed by the message of what was
  caught. When one of the three fails, what \<open>atob\<close> threw leaves \<open>decrypt\<close> as it is,
  and no key was imported or derived.
\<close>

theorem decrypt_wraps_failures_of_try_block:
  assumes "envelope_parts c = [r, s, i, d]"
  shows "(\<forall>salt iv content e w'.
            base64ToUint8Array s = Inr salt \<and> base64ToUint8Array i = Inr iv
            \<and> base64ToUint8Array d = Inr content
            \<and> decrypt_try P R (parseInt10 r) salt iv content w = (Inl e, w')
            \<longrightarrow> decrypt P R c w = (Inl (Error (lit ''Decryption failed: '' @ message_of e)), w'))
       \<and> (\<forall>e. (base64ToUint8Array s = Inl e
                \<or> (\<exists>salt. base64ToUint8Array s = Inr salt
                     \<and> (base64ToUint8Array i = Inl e
                         \<or> (\<exists>iv. base64ToUint8Array i = Inr iv \<and> base64ToUint8Array d = Inl e))))
            \<longrightarrow> decrypt P R c w = (Inl e, w))"
proof (intro conjI allI impI)
  fix salt iv content e w'
  assume "base64ToUint8Array s = Inr salt \<and> base64ToUint8Array i = Inr iv
      \<and> base64ToUint8Array d = Inr content
      \<and> decrypt_try P R (parseInt10 r) salt iv content w = (Inl e, w')"
  then show "decrypt P R c w = (Inl (Error (lit ''Decryption failed: '' @ message_of e)), w')"
    using decrypt_decoded [OF assms, of salt iv content P R w] by simp
next
  fix e
  assume "base64ToUint8Array s = Inl e
      \<or> (\<exists>salt. base64ToUint8Array s = Inr salt
           \<and> (base64ToUint8Array i = Inl e
               \<or> (\<exists>iv. base64ToUint8Array i = Inr iv \<and> base64ToUint8Array d = Inl e)))"
  then show "decrypt P R c w = (Inl e, w)"
    using assms by (rule decrypt_undecodable [rotated])
qed

lemma tampered_parts:
  "envelope_parts (lit ''base64:1000000:AQIDBAUGBwg=:AQIDBAUGBwgJCgsM:6utV'') =
     [lit ''1000000'', lit ''AQIDBAUGBwg='', lit ''AQIDBAUGBwgJCgsM'', lit ''6utV'']"
  by (simp add: envelope_parts_def startsWith_def substring_def lit_def colon_def)

lemma decode_demo_salt: "base64ToUint8Array (lit ''AQIDBAUGBwg='') = Inr [1, 2, 3, 4, 5, 6, 7, 8]"
  by (simp add: atob_simps lit_def)

lemma decode_demo_iv:
  "base64ToUint8Array (lit ''AQIDBAUGBwgJCgsM'') = Inr [1, 2, 3, 4, 5, 6, 7, 8, 9, 10, 11, 12]"
  by (simp add: atob_simps lit_def)

lemma decode_tampered: "base64ToUint8Array (lit ''6utV'') = Inr [234, 235, 85]"
  by (simp add: atob_simps lit_def)

lemma parse_million: "parseInt10 (lit ''1000000'') = Finite 1000000"
  by (simp add: parseInt10_def StrWhiteSpaceChar_def is_digit_def digits_value_def lit_def)

lemma demo_rejects_tampered:
  "subtle_decrypt demo [1, 2, 3, 4, 5, 6, 7, 8, 9, 10, 11, 12]
      [116, 101, 115, 116, 45, 109, 97, 115, 116, 101, 114, 45, 107, 101, 121, 45, 49, 54, 99, 104,
       97, 114, 115, 43, 1, 2, 3, 4, 5, 6, 7, 8, 49, 48, 48, 48, 48, 48, 48]
      [234, 235, 85] = Inl OperationError"
  by (simp add: demo_def demo_decrypt_def demo_tag_def)

lemma demo_try_tampered:
  "decrypt_try demo R (Finite 1000000) [1, 2, 3, 4, 5, 6, 7, 8]
      [1, 2, 3, 4, 5, 6, 7, 8, 9, 10, 11, 12] [234, 235, 85]
      ((node_world test_key)\<lparr>events := evs\<rparr>) =
     (Inl OperationError,
      (node_world test_key)\<lparr>events := evs @ [ImportKey, DeriveKey (Finite 1000000), Decrypt]\<rparr>)"
  by (simp only: decrypt_try_flat masterKey_test_key sum.case encode_test_key demo_import
      demo_key_million demo_rejects_tampered)
    simp

theorem decrypt_wraps_failures_of_try_block_witness:
  "decrypt demo (NumberValue 1000000) (lit ''base64:1000000:AQIDBAUGBwg=:AQIDBAUGBwgJCgsM:6utV'')
       (node_world test_key) =
     (Inl (Error (lit ''Decryption failed: The operation failed for an operation-specific reason'')),
      (node_world test_key)\<lparr>events := [ImportKey, DeriveKey (Finite 1000000), Decrypt]\<rparr>)"
proof -
  have run: "decrypt_try demo (NumberValue 1000000) (parseInt10 (lit ''1000000''))
      [1, 2, 3, 4, 5, 6, 7, 8] [1, 2, 3, 4, 5, 6, 7, 8, 9, 10, 11, 12] [234, 235, 85]
      (node_world test_key) =
     (Inl OperationError,
      (node_world test_key)\<lparr>events := [ImportKey, DeriveKey (Finite 1000000), Decrypt]\<rparr>)"
    using demo_try_tampered [of "NumberValue 1000000" "events (node_world test_key)"]
    by (simp add: parse_million node_world_def)
  have msg: "lit ''Decryption failed: '' @ message_of OperationError =
      lit ''Decryption failed: The operation failed for an operation-specific reason''"
    by (simp add: OperationError_def lit_def)
  show ?thesis
    using decrypt_wraps_failures_of_try_block [OF tampered_parts, of demo "NumberValue 1000000"
        "node_world test_key"] decode_demo_salt decode_demo_iv decode_tampered run
    by (simp only: msg)
qed

text \<open>
  An argument of four parts whose salt part is not base64: the error is the one of
  \<open>atob\<close>, and its message does not start with \<open>Decryption failed: \<close>.
\<close>

lemma malformed_parts:
  "envelope_parts (lit ''1000000:!:AQIDBAUGBwgJCgsM:6utU'') =
     [lit ''1000000'', lit ''!'', lit ''AQIDBAUGBwgJCgsM'', lit ''6utU'']"
  by (simp add: envelope_parts_def startsWith_def substring_def lit_def colon_def)

theorem decrypt_malformed_base64_counterexample:
  "length (envelope_parts (lit ''1000000:!:AQIDBAUGBwgJCgsM:6utU'')) = 4
   \<and> decrypt demo (NumberValue 1000000) (lit ''1000000:!:AQIDBAUGBwgJCgsM:6utU'')
        (node_world test_key) = (Inl InvalidCharacterError, node_world test_key)
   \<and> \<not> startsWith (message_of InvalidCharacterError) (lit ''Decryption failed: '')"
proof -
  have "base64ToUint8Array (lit ''!'') = Inl InvalidCharacterError"
    by (simp add: atob_simps lit_def)
  then have "decrypt demo (NumberValue 1000000) (lit ''1000000:!:AQIDBAUGBwgJCgsM:6utU'')
      (node_world test_key) = (Inl InvalidCharacterError, node_world test_key)"
    using decrypt_undecodable [OF malformed_parts] by blast
  moreover have "\<not> startsWith (message_of InvalidCharacterError) (lit ''Decryption failed: '')"
    by (simp add: startsWith_def InvalidCharacterError_def lit_def)
  ultimately show ?thesis
    by (simp add: malformed_parts)
qed

subsection \<open>Decrypting what \<open>encrypt\<close> returned\<close>

lemma masterKey_valid:
  assumes "process w = Env a"
    and "store w a (lit ''GITOPS_SECRETS_MASTER_KEY'') = Some pass"
    and "16 \<le> length pass"
  shows "masterKey w = Inr pass"
  using assms by (auto simp: masterKey_def)

lemma encrypt_succeeds:
  assumes "masterKey w = Inr pass" and "kdf_accepts P (Number P R)" and "aead_works P"
  shows "\<exists>e w1. encrypt P R x w = (Inr e, w1)"
proof -
  let ?salt = "map (getRandomValues P (random_calls w)) [0..<8]"
  let ?iv = "map (getRandomValues P (Suc (random_calls w))) [0..<12]"
  obtain imported key where k: "subtle_importKey P (TextEncoder_encode pass) = Inr imported"
      "subtle_deriveKey P ?salt (Number P R) imported = Inr key"
    using assms(2) unfolding kdf_accepts_def by blast
  obtain encrypted where "subtle_encrypt P ?iv key (TextEncoder_encode x) = Inr encrypted"
    using assms(3) unfolding aead_works_def by blast
  then show ?thesis
    using assms(1) k by (simp add: encrypt_flat)
qed

lemma decrypt_of_encrypted:
  assumes enc: "encrypt P R x w = (Inr e, w1)"
    and pass: "masterKey w2 = masterKey w"
    and cfg: "colon \<notin> set (template R)" "parseInt10 (template R) = Number P R"
  shows "\<exists>salt iv key encrypted.
           e = envelope (template R) (base64_encode salt) (base64_encode iv) (base64_encode encrypted)
         \<and> subtle_encrypt P iv key (TextEncoder_encode x) = Inr encrypted
         \<and> (\<forall>R' content.
               fst (decrypt P R'
                      (envelope (template R) (base64_encode salt) (base64_encode iv)
                         (base64_encode content)) w2) =
               (case subtle_decrypt P iv key content of
                  Inl err \<Rightarrow> Inl (Error (lit ''Decryption failed: '' @ message_of err))
                | Inr buffer \<Rightarrow> Inr (TextDecoder_decode buffer)))"
proof -
  let ?salt = "map (getRandomValues P (random_calls w)) [0..<8]"
  let ?iv = "map (getRandomValues P (Suc (random_calls w))) [0..<12]"
  obtain p imported key encrypted where s:
      "masterKey w = Inr p"
      "subtle_importKey P (TextEncoder_encode p) = Inr imported"
      "subtle_deriveKey P ?salt (Number P R) imported = Inr key"
      "subtle_encrypt P ?iv key (TextEncoder_encode x) = Inr encrypted"
      "e = envelope (template R) (base64_encode ?salt) (base64_encode ?iv) (base64_encode encrypted)"
    using encrypt_success [OF enc] by blast
  have "fst (decrypt P R'
            (envelope (template R) (base64_encode ?salt) (base64_encode ?iv) (base64_encode content))
            w2) =
      (case subtle_decrypt P ?iv key content of
         Inl err \<Rightarrow> Inl (Error (lit ''Decryption failed: '' @ message_of err))
       | Inr buffer \<Rightarrow> Inr (TextDecoder_decode buffer))" for R' content
    using s(1-3) pass cfg
    by (simp add: decrypt_envelope decrypt_try_flat split: sum.splits)
  then show ?thesis
    using s(4,5) by blast
qed

text \<open>
  C1, as the code has it. Let the passphrase be set and at least 16 units long, the same
  at both calls; let the platform accept the configured number of rounds and decrypt
  what it encrypts; let \<open>x\<close> be well-formed UTF-16 that does not begin with U+FEFF
  (\<open>TextDecoder\<close> with its default options removes a leading U+FEFF, and \<open>TextEncoder\<close>
  replaces a lone surrogate, so other strings do not come back); and let the text of the module
  constant \<open>PBKDF2_ROUNDS\<close> hold no \<open>:\<close> and be read by \<open>parseInt(_, 10)\<close> as the number
  \<open>Number\<close> makes of the constant, which is so when the variable was unset. Then
  \<open>encrypt\<close> returns an envelope and \<open>decrypt\<close> of that envelope returns \<open>x\<close>, whatever
  the module constant is at the time of the \<open>decrypt\<close> call.
\<close>

theorem decrypt_encrypt_roundtrip:
  assumes "process w = Env a"
    and "store w a (lit ''GITOPS_SECRETS_MASTER_KEY'') = Some pass"
    and "16 \<le> length pass"
    and "masterKey w2 = masterKey w"
    and "kdf_accepts P (Number P R)"
    and "aead_works P"
    and "well_formed x"
    and "x = [] \<or> hd x \<noteq> 0xFEFF"
    and "colon \<notin> set (template R)"
    and "parseInt10 (template R) = Number P R"
  shows "\<exists>e w1. encrypt P R x w = (Inr e, w1) \<and> fst (decrypt P R' e w2) = Inr x"
proof -
  have codec: "TextDecoder_decode (TextEncoder_encode x) = x"
    using assms(7,8) by (rule well_formed_roundtrip)
  have key: "masterKey w = Inr pass"
    using assms(1-3) by (rule masterKey_valid)
  then obtain e w1 where enc: "encrypt P R x w = (Inr e, w1)"
    using encrypt_succeeds assms(5,6) by blast
  obtain salt iv key encrypted where d:
      "e = envelope (template R) (base64_encode salt) (base64_encode iv) (base64_encode encrypted)"
      "subtle_encrypt P iv key (TextEncoder_encode x) = Inr encrypted"
      "fst (decrypt P R' e w2) =
         (case subtle_decrypt P iv key encrypted of
            Inl err \<Rightarrow> Inl (Error (lit ''Decryption failed: '' @ message_of err))
          | Inr buffer \<Rightarrow> Inr (TextDecoder_decode buffer))"
    using decrypt_of_encrypted [OF enc assms(4) assms(9) assms(10)] by blast
  have "subtle_decrypt P iv key encrypted = Inr (TextEncoder_encode x)"
    using d(2) assms(6) unfolding aead_works_def by (metis sum.inject(2))
  then have "fst (decrypt P R' e w2) = Inr x"
    using d(3) codec by simp
  then show ?thesis
    using enc by blast
qed

lemma demo_kdf_accepts_million: "kdf_accepts demo (Finite 1000000)"
  by (simp add: kdf_accepts_def demo_def demo_deriveKey_def)

lemma demo_aead_works: "aead_works demo"
proof -
  have "map (\<lambda>b. b - k - l) (map (\<lambda>b. b + k + l) data) = data" for k l and data :: Uint8Array
    by (induction data) simp_all
  then show ?thesis
    by (simp add: aead_works_def demo_def demo_encrypt_def demo_decrypt_def butlast_append
        del: map_map)
qed

lemma demo_encrypt_run:
  assumes "subtle_encrypt demo [1, 2, 3, 4, 5, 6, 7, 8, 9, 10, 11, 12] demo_key (TextEncoder_encode x)
      = Inr encrypted"
  shows "fst (encrypt demo (NumberValue 1000000) x ((node_world test_key)\<lparr>events := evs\<rparr>)) =
     Inr (envelope (lit ''1000000'') (base64_encode [1, 2, 3, 4, 5, 6, 7, 8])
            (base64_encode [1, 2, 3, 4, 5, 6, 7, 8, 9, 10, 11, 12]) (base64_encode encrypted))"
  using assms unfolding demo_key_def
  by (simp only: encrypt_flat Let_def masterKey_test_key sum.case encode_test_key demo_salt
      demo_iv demo_import Number.simps of_nat_numeral demo_key_million template.simps
      decimal_million fst_conv)

lemma demo_decrypt_run:
  "fst (decrypt demo R
          (envelope (lit ''1000000'') (base64_encode [1, 2, 3, 4, 5, 6, 7, 8])
             (base64_encode [1, 2, 3, 4, 5, 6, 7, 8, 9, 10, 11, 12]) (base64_encode content))
          ((node_world test_key)\<lparr>events := evs\<rparr>)) =
     (case subtle_decrypt demo [1, 2, 3, 4, 5, 6, 7, 8, 9, 10, 11, 12] demo_key content of
        Inl err \<Rightarrow> Inl (Error (lit ''Decryption failed: '' @ message_of err))
      | Inr buffer \<Rightarrow> Inr (TextDecoder_decode buffer))"
proof -
  let ?w = "(node_world test_key)\<lparr>events := evs\<rparr>"
  have "colon \<notin> set (lit ''1000000'')"
    by (simp add: lit_def colon_def)
  then have "decrypt demo R
      (envelope (lit ''1000000'') (base64_encode [1, 2, 3, 4, 5, 6, 7, 8])
         (base64_encode [1, 2, 3, 4, 5, 6, 7, 8, 9, 10, 11, 12]) (base64_encode content)) ?w =
      (case decrypt_try demo R (parseInt10 (lit ''1000000'')) [1, 2, 3, 4, 5, 6, 7, 8]
              [1, 2, 3, 4, 5, 6, 7, 8, 9, 10, 11, 12] content ?w of
         (Inl error, w') \<Rightarrow> (Inl (Error (lit ''Decryption failed: '' @ message_of error)), w')
       | (Inr decrypted, w') \<Rightarrow> (Inr decrypted, w'))"
    by (rule decrypt_envelope)
  moreover have "decrypt_try demo R (parseInt10 (lit ''1000000'')) [1, 2, 3, 4, 5, 6, 7, 8]
      [1, 2, 3, 4, 5, 6, 7, 8, 9, 10, 11, 12] content ?w =
      (case subtle_decrypt demo [1, 2, 3, 4, 5, 6, 7, 8, 9, 10, 11, 12] demo_key content of
         Inl e \<Rightarrow> (Inl e, ?w\<lparr>events := events ?w @ [ImportKey, DeriveKey (Finite 1000000), Decrypt]\<rparr>)
       | Inr decrypted \<Rightarrow>
           (Inr (TextDecoder_decode decrypted),
            ?w\<lparr>events := events ?w @ [ImportKey, DeriveKey (Finite 1000000), Decrypt]\<rparr>))"
    unfolding demo_key_def
    by (simp only: decrypt_try_flat masterKey_test_key sum.case encode_test_key demo_import
        parse_million demo_key_million)
  ultimately show ?thesis
    by (simp split: sum.splits)
qed

lemma node_world_events: "(node_world vars)\<lparr>events := []\<rparr> = node_world vars"
  by (simp add: node_world_def)

theorem decrypt_encrypt_roundtrip_witness:
  "fst (encrypt demo (NumberValue 1000000) (lit ''hi'') (node_world test_key)) =
     Inr (lit ''base64:1000000:AQIDBAUGBwg=:AQIDBAUGBwgJCgsM:6utU'')
   \<and> fst (decrypt demo (NumberValue 5000) (lit ''base64:1000000:AQIDBAUGBwg=:AQIDBAUGBwgJCgsM:6utU'')
          (node_world test_key)) = Inr (lit ''hi'')"
proof -
  have p: "process (node_world test_key) = Env 0"
    by (simp add: node_world_def)
  have k: "store (node_world test_key) 0 (lit ''GITOPS_SECRETS_MASTER_KEY'') =
      Some (lit ''test-master-key-16chars+'')"
    by (simp add: node_world_def test_key_def)
  have l: "16 \<le> length (lit ''test-master-key-16chars+'')"
    by (simp add: lit_def)
  have kdf: "kdf_accepts demo (Number demo (NumberValue 1000000))"
    using demo_kdf_accepts_million by simp
  have shape: "well_formed (lit ''hi'')"
    by (simp add: lit_def)
  have start: "lit ''hi'' = [] \<or> hd (lit ''hi'') \<noteq> 0xFEFF"
    by (simp add: lit_def)
  have c: "colon \<notin> set (template (NumberValue 1000000))"
    by (simp add: decimal_million lit_def colon_def)
  have n: "parseInt10 (template (NumberValue 1000000)) = Number demo (NumberValue 1000000)"
    by (simp add: decimal_million parse_million)
  obtain e w1 where r: "encrypt demo (NumberValue 1000000) (lit ''hi'') (node_world test_key) = (Inr e, w1)"
      "fst (decrypt demo (NumberValue 5000) e (node_world test_key)) = Inr (lit ''hi'')"
    using decrypt_encrypt_roundtrip [OF p k l refl kdf demo_aead_works shape start c n, of "NumberValue 5000"]
    by blast
  have "e = lit ''base64:1000000:AQIDBAUGBwg=:AQIDBAUGBwgJCgsM:6utU''"
    using r(1) demo_encrypt_hi [of "[]"] by (simp add: node_world_events)
  then show ?thesis
    using r by simp
qed

text \<open>
  A string that starts with U+FEFF does not come back: its UTF-8 bytes start with
  \<open>EF BB BF\<close>, which the decoder takes for a byte order mark and drops.
\<close>

lemma demo_cipher_bom:
  "subtle_encrypt demo [1, 2, 3, 4, 5, 6, 7, 8, 9, 10, 11, 12] demo_key
      (TextEncoder_encode (0xFEFF # lit ''hi'')) = Inr [113, 61, 65, 234, 235, 189]"
  by (simp add: demo_simps demo_key_def text_simps lit_def)

lemma demo_plain_bom:
  "subtle_decrypt demo [1, 2, 3, 4, 5, 6, 7, 8, 9, 10, 11, 12] demo_key [113, 61, 65, 234, 235, 189]
     = Inr [239, 187, 191, 104, 105]"
  by (simp add: demo_simps demo_key_def)

lemma demo_envelope_bom:
  "envelope (lit ''1000000'') (base64_encode [1, 2, 3, 4, 5, 6, 7, 8])
      (base64_encode [1, 2, 3, 4, 5, 6, 7, 8, 9, 10, 11, 12])
      (base64_encode [113, 61, 65, 234, 235, 189]) =
   lit ''base64:1000000:AQIDBAUGBwg=:AQIDBAUGBwgJCgsM:cT1B6uu9''"
  by (simp add: envelope_def b64_char_def pad_def colon_def lit_def)

theorem roundtrip_drops_byte_order_mark_counterexample:
  "masterKey (node_world test_key) = Inr (lit ''test-master-key-16chars+'')
   \<and> fst (encrypt demo (NumberValue 1000000) (0xFEFF # lit ''hi'') (node_world test_key)) =
       Inr (lit ''base64:1000000:AQIDBAUGBwg=:AQIDBAUGBwgJCgsM:cT1B6uu9'')
   \<and> fst (decrypt demo (NumberValue 1000000)
          (lit ''base64:1000000:AQIDBAUGBwg=:AQIDBAUGBwgJCgsM:cT1B6uu9'') (node_world test_key)) =
       Inr (lit ''hi'')
   \<and> lit ''hi'' \<noteq> 0xFEFF # lit ''hi''"
proof -
  have key: "masterKey (node_world test_key) = Inr (lit ''test-master-key-16chars+'')"
    using masterKey_test_key [of "[]"] by (simp add: node_world_events)
  have enc: "fst (encrypt demo (NumberValue 1000000) (0xFEFF # lit ''hi'') (node_world test_key)) =
      Inr (lit ''base64:1000000:AQIDBAUGBwg=:AQIDBAUGBwgJCgsM:cT1B6uu9'')"
    using demo_encrypt_run [OF demo_cipher_bom, of "[]"]
    by (simp only: demo_envelope_bom node_world_events)
  have "TextDecoder_decode [239, 187, 191, 104, 105] = lit ''hi''"
    by (simp add: text_simps lit_def)
  then have dec: "fst (decrypt demo (NumberValue 1000000)
        (lit ''base64:1000000:AQIDBAUGBwg=:AQIDBAUGBwgJCgsM:cT1B6uu9'') (node_world test_key)) =
      Inr (lit ''hi'')"
    using demo_decrypt_run [of "NumberValue 1000000" "[113, 61, 65, 234, 235, 189]" "[]"]
    by (simp only: demo_envelope_bom node_world_events demo_plain_bom sum.case)
  show ?thesis
    using key enc dec by simp
qed

subsection \<open>A changed ciphertext\<close>







lemma demo_try_run:
  "decrypt_try demo R (Finite 1000000) [1, 2, 3, 4, 5, 6, 7, 8]
      [1, 2, 3, 4, 5, 6, 7, 8, 9, 10, 11, 12] content ((node_world test_key)\<lparr>events := evs\<rparr>) =
     (case subtle_decrypt demo [1, 2, 3, 4, 5, 6, 7, 8, 9, 10, 11, 12] demo_key content of
        Inl e \<Rightarrow>
          (Inl e, (node_world test_key)\<lparr>events := evs @
             [ImportKey, DeriveKey (Finite 1000000), Decrypt]\<rparr>)
      | Inr decrypted \<Rightarrow>
          (Inr (TextDecoder_decode decrypted),
           (node_world test_key)\<lparr>events := evs @
             [ImportKey, DeriveKey (Finite 1000000), Decrypt]\<rparr>))"
  unfolding demo_key_def
  by (simp only: decrypt_try_flat masterKey_test_key sum.case encode_test_key demo_import
      demo_key_million)
    (simp split: sum.splits)


lemma decode_hi: "base64ToUint8Array (lit ''6utU'') = Inr [234, 235, 84]"
  by (simp add: atob_simps lit_def)








subsection \<open>The rounds \<open>decrypt\<close> uses\<close>

text \<open>
  \<open>decrypt\<close> passes the rounds it parsed from the envelope to \<open>deriveKey\<close>, so the
  module constant is never read: \<open>decrypt\<close> is the same function whatever the constant is.
\<close>

lemma decrypt_ignores_module_constant: "decrypt P R c w = decrypt P R' c w"
proof -
  have "decrypt_try P R rounds salt iv content w = decrypt_try P R' rounds salt iv content w"
    for rounds salt iv content
    by (simp add: decrypt_try_flat)
  then show ?thesis
    by (simp add: decrypt_def Let_def split: sum.splits)
qed

text \<open>
  C6, at a configuration where the code fails. \<open>encrypt\<close> derives the key with
  \<open>Number(PBKDF2_ROUNDS)\<close> and writes the constant itself into the envelope; \<open>decrypt\<close>
  reads that text with \<open>parseInt(_, 10)\<close>. For the configuration text \<open>1e6\<close> the first is
  1000000 and the second is 1: the keys differ, and \<open>decrypt\<close> throws on the envelope that
  \<open>encrypt\<close> has just returned, under the same passphrase and the same constant.
\<close>

lemma parse_1e6: "parseInt10 (lit ''1e6'') = Finite 1"
  by (simp add: parseInt10_def StrWhiteSpaceChar_def is_digit_def digits_value_def lit_def)

lemma demo_Number_1e6: "Number demo (StringValue (lit ''1e6'')) = Finite 1000000"
  by (simp add: demo_def demo_Number_def is_digit_def digits_value_def lit_def)

lemma demo_key_one:
  "subtle_deriveKey demo [1, 2, 3, 4, 5, 6, 7, 8] (Finite 1)
     [116, 101, 115, 116, 45, 109, 97, 115, 116, 101, 114, 45, 107, 101, 121, 45, 49, 54, 99, 104,
      97, 114, 115, 43] =
   Inr [116, 101, 115, 116, 45, 109, 97, 115, 116, 101, 114, 45, 107, 101, 121, 45, 49, 54, 99, 104,
      97, 114, 115, 43, 1, 2, 3, 4, 5, 6, 7, 8, 49]"
  by (simp add: demo_simps decimal_digit)

lemma demo_envelope_1e6:
  "envelope (template (StringValue (lit ''1e6''))) (base64_encode [1, 2, 3, 4, 5, 6, 7, 8])
      (base64_encode [1, 2, 3, 4, 5, 6, 7, 8, 9, 10, 11, 12]) (base64_encode [234, 235, 84]) =
   lit ''base64:1e6:AQIDBAUGBwg=:AQIDBAUGBwgJCgsM:6utU''"
  by (simp add: envelope_def b64_char_def pad_def colon_def lit_def)

lemma parts_1e6:
  "envelope_parts (lit ''base64:1e6:AQIDBAUGBwg=:AQIDBAUGBwgJCgsM:6utU'') =
     [lit ''1e6'', lit ''AQIDBAUGBwg='', lit ''AQIDBAUGBwgJCgsM'', lit ''6utU'']"
  by (simp add: envelope_parts_def startsWith_def substring_def lit_def colon_def)

lemma demo_rejects_under_one_round:
  "subtle_decrypt demo [1, 2, 3, 4, 5, 6, 7, 8, 9, 10, 11, 12]
      [116, 101, 115, 116, 45, 109, 97, 115, 116, 101, 114, 45, 107, 101, 121, 45, 49, 54, 99, 104,
       97, 114, 115, 43, 1, 2, 3, 4, 5, 6, 7, 8, 49]
      [234, 235, 84] = Inl OperationError"
  by (simp add: demo_def demo_decrypt_def demo_tag_def)

theorem rounds_text_1e6_does_not_decrypt:
  "PBKDF2_ROUNDS (map_of [(lit ''GITOPS_SECRETS_PBKDF2_ROUNDS'', lit ''1e6'')]) =
     StringValue (lit ''1e6'')
   \<and> encrypt demo (StringValue (lit ''1e6'')) (lit ''hi'') (node_world test_key) =
       (Inr (lit ''base64:1e6:AQIDBAUGBwg=:AQIDBAUGBwgJCgsM:6utU''),
        (node_world test_key)\<lparr>events :=
           [RandomValues 8, RandomValues 12, ImportKey, DeriveKey (Finite 1000000), Encrypt]\<rparr>)
   \<and> decrypt demo (StringValue (lit ''1e6'')) (lit ''base64:1e6:AQIDBAUGBwg=:AQIDBAUGBwgJCgsM:6utU'')
         (node_world test_key) =
       (Inl (Error (lit ''Decryption failed: The operation failed for an operation-specific reason'')),
        (node_world test_key)\<lparr>events := [ImportKey, DeriveKey (Finite 1), Decrypt]\<rparr>)"
proof -
  have load: "PBKDF2_ROUNDS (map_of [(lit ''GITOPS_SECRETS_PBKDF2_ROUNDS'', lit ''1e6'')]) =
      StringValue (lit ''1e6'')"
    by (simp add: PBKDF2_ROUNDS_def lit_def)
  have "encrypt demo (StringValue (lit ''1e6'')) (lit ''hi'') ((node_world test_key)\<lparr>events := []\<rparr>) =
     (Inr (lit ''base64:1e6:AQIDBAUGBwg=:AQIDBAUGBwgJCgsM:6utU''),
      after_random ((node_world test_key)\<lparr>events := []\<rparr>)
         [ImportKey, DeriveKey (Finite 1000000), Encrypt])"
    by (simp only: encrypt_flat Let_def masterKey_test_key sum.case encode_test_key demo_salt
        demo_iv demo_import demo_Number_1e6 demo_key_million demo_cipher_hi demo_envelope_1e6)
  then have enc: "encrypt demo (StringValue (lit ''1e6'')) (lit ''hi'') (node_world test_key) =
       (Inr (lit ''base64:1e6:AQIDBAUGBwg=:AQIDBAUGBwgJCgsM:6utU''),
        (node_world test_key)\<lparr>events :=
           [RandomValues 8, RandomValues 12, ImportKey, DeriveKey (Finite 1000000), Encrypt]\<rparr>)"
    by (simp add: after_random_def node_world_def)
  have "decrypt_try demo (StringValue (lit ''1e6'')) (parseInt10 (lit ''1e6'')) [1, 2, 3, 4, 5, 6, 7, 8]
      [1, 2, 3, 4, 5, 6, 7, 8, 9, 10, 11, 12] [234, 235, 84]
      ((node_world test_key)\<lparr>events := []\<rparr>) =
     (Inl OperationError,
      (node_world test_key)\<lparr>events := [] @ [ImportKey, DeriveKey (Finite 1), Decrypt]\<rparr>)"
    by (simp only: decrypt_try_flat masterKey_test_key sum.case encode_test_key demo_import
        parse_1e6 demo_key_one demo_rejects_under_one_round)
      simp
  moreover have "lit ''Decryption failed: '' @ message_of OperationError =
      lit ''Decryption failed: The operation failed for an operation-specific reason''"
    by (simp add: OperationError_def lit_def)
  ultimately have dec: "decrypt demo (StringValue (lit ''1e6''))
      (lit ''base64:1e6:AQIDBAUGBwg=:AQIDBAUGBwgJCgsM:6utU'') (node_world test_key) =
       (Inl (Error (lit ''Decryption failed: The operation failed for an operation-specific reason'')),
        (node_world test_key)\<lparr>events := [ImportKey, DeriveKey (Finite 1), Decrypt]\<rparr>)"
    using decrypt_decoded [OF parts_1e6 decode_demo_salt decode_demo_iv decode_hi,
        of demo "StringValue (lit ''1e6'')" "node_world test_key"]
    by (simp add: node_world_events)
  show ?thesis
    by (intro conjI load enc dec)
qed

subsection \<open>A successful load\<close>

text \<open>
  \<open>loadSecrets\<close> on the envelope of \<open>{"A":"1"}\<close>: the text is decrypted, parsed and
  merged into \<open>process.env\<close>, and nothing is logged.
\<close>

lemma json_parts:
  \<open>envelope_parts (lit ''base64:1000000:AQIDBAUGBwg=:AQIDBAUGBwgJCgsM:/aTDpLyks6T/rw=='') =
     [lit ''1000000'', lit ''AQIDBAUGBwg='', lit ''AQIDBAUGBwgJCgsM'', lit ''/aTDpLyks6T/rw=='']\<close>
  by (simp add: envelope_parts_def startsWith_def substring_def lit_def colon_def)

lemma decode_json:
  \<open>base64ToUint8Array (lit ''/aTDpLyks6T/rw=='') =
     Inr [253, 164, 195, 164, 188, 164, 179, 164, 255, 175]\<close>
  by (simp add: atob_simps lit_def)

lemma demo_plain_json:
  \<open>subtle_decrypt demo [1, 2, 3, 4, 5, 6, 7, 8, 9, 10, 11, 12] demo_key
      [253, 164, 195, 164, 188, 164, 179, 164, 255, 175] =
     Inr [123, 34, 65, 34, 58, 34, 49, 34, 125]\<close>
  by (simp add: demo_simps demo_key_def)

lemma demo_parse_json:
  \<open>JSON_parse demo (TextDecoder_decode [123, 34, 65, 34, 58, 34, 49, 34, 125]) =
     Inr [(lit ''A'', lit ''1'')]\<close>
  by (simp add: demo_def demo_JSON_parse_def demo_member_def quote_def colon_def text_simps lit_def)

lemma loadSecrets_run:
  \<open>fst (loadSecrets demo (NumberValue 1000000)
          (lit ''base64:1000000:AQIDBAUGBwg=:AQIDBAUGBwgJCgsM:/aTDpLyks6T/rw=='') PROCESS
          (node_world test_key)) = Inr 0
   \<and> store (snd (loadSecrets demo (NumberValue 1000000)
          (lit ''base64:1000000:AQIDBAUGBwg=:AQIDBAUGBwgJCgsM:/aTDpLyks6T/rw=='') PROCESS
          (node_world test_key))) 0 (lit ''A'') = Some (lit ''1'')
   \<and> events (snd (loadSecrets demo (NumberValue 1000000)
          (lit ''base64:1000000:AQIDBAUGBwg=:AQIDBAUGBwgJCgsM:/aTDpLyks6T/rw=='') PROCESS
          (node_world test_key))) = [ImportKey, DeriveKey (Finite 1000000), Decrypt]\<close>
proof -
  let ?w1 = "(node_world test_key)\<lparr>events := [] @ [ImportKey, DeriveKey (Finite 1000000), Decrypt]\<rparr>"
  have "decrypt_try demo (NumberValue 1000000) (parseInt10 (lit ''1000000'')) [1, 2, 3, 4, 5, 6, 7, 8]
      [1, 2, 3, 4, 5, 6, 7, 8, 9, 10, 11, 12] [253, 164, 195, 164, 188, 164, 179, 164, 255, 175]
      (node_world test_key) =
      (Inr (TextDecoder_decode [123, 34, 65, 34, 58, 34, 49, 34, 125]), ?w1)"
    using demo_try_run [of "NumberValue 1000000" "[253, 164, 195, 164, 188, 164, 179, 164, 255, 175]" "[]"]
    by (simp only: node_world_events parse_million demo_plain_json sum.case)
  then have dec: "decrypt demo (NumberValue 1000000)
      (lit ''base64:1000000:AQIDBAUGBwg=:AQIDBAUGBwgJCgsM:/aTDpLyks6T/rw=='') (node_world test_key) =
      (Inr (TextDecoder_decode [123, 34, 65, 34, 58, 34, 49, 34, 125]), ?w1)"
    using decrypt_decoded [OF json_parts decode_demo_salt decode_demo_iv decode_json,
        of demo "NumberValue 1000000" "node_world test_key"]
    by simp
  have env: "getEnvObject PROCESS ?w1 = Inr 0"
    by (simp add: getEnvObject_def node_world_def)
  have merge: "mergeSecrets [(lit ''A'', lit ''1'')] PROCESS ?w1 =
      (Inr 0, ?w1\<lparr>store := (store ?w1)(0 := write_all (kind ?w1 0) (store ?w1 0) [(lit ''A'', lit ''1'')])\<rparr>)"
    using env by (rule mergeSecrets_resolved)
  have "loadSecrets demo (NumberValue 1000000)
      (lit ''base64:1000000:AQIDBAUGBwg=:AQIDBAUGBwgJCgsM:/aTDpLyks6T/rw=='') PROCESS
      (node_world test_key) =
      (Inr 0, ?w1\<lparr>store := (store ?w1)(0 := write_all (kind ?w1 0) (store ?w1 0) [(lit ''A'', lit ''1'')])\<rparr>)"
    by (simp only: loadSecrets_def dec prod.case sum.case demo_parse_json merge)
  then show ?thesis
    by (simp add: set_property_kept [OF kept_A])
qed

end
